theory Spec2Isabelle
  imports Main "HOL-Library.Sublist"
begin

section \<open>Values exchanged with the daemon\<close>

text \<open>
  The daemon speaks JSON. A decoded JSON value is what Python's \<^verbatim>\<open>json\<close> module
  produces: \<^verbatim>\<open>None\<close>, a bool, an int, a str, a list or a dict with string keys. A dict
  is kept as an association list in which the first binding of a key is the one looked up.
  Values of the classes declared in \<^verbatim>\<open>types.py\<close> (Address, Quote, Attachment, Mention),
  which is not among the sources, are represented by their serialised form.
\<close>

datatype json =
    JNone
  | JBool bool
  | JInt int
  | JStr string
  | JList "json list"
  | JDict "(string \<times> json) list"

text \<open>
  The exceptions that the modelled code can raise or let through. \<^verbatim>\<open>UnexpectedError\<close>
  carries the text that \<^verbatim>\<open>str(e)\<close> yields, \<^verbatim>\<open>UnexpectedResponse\<close> carries
  \<^verbatim>\<open>resp_type\<close> and the data. \<^verbatim>\<open>OtherError\<close> stands for anything else the transport
  raises (a closed socket, for one).
\<close>

datatype exn =
    UnexpectedError string
  | UnexpectedResponse string json
  | ValueError string
  | KeyError string
  | TypeError
  | AttributeError
  | Exception string
  | OtherError string

subsection \<open>Python's view of a value\<close>

text \<open>Truthiness, as \<^verbatim>\<open>if x:\<close> tests it.\<close>

fun truthy :: "json \<Rightarrow> bool" where
  "truthy JNone = False"
| "truthy (JBool b) = b"
| "truthy (JInt i) = (i \<noteq> 0)"
| "truthy (JStr s) = (s \<noteq> [])"
| "truthy (JList xs) = (xs \<noteq> [])"
| "truthy (JDict kvs) = (kvs \<noteq> [])"

text \<open>\<^verbatim>\<open>x.get(key, default)\<close>: only a dict has the method.\<close>

fun py_get :: "json \<Rightarrow> string \<Rightarrow> json \<Rightarrow> exn + json" where
  "py_get (JDict kvs) k dflt = Inr (case map_of kvs k of None \<Rightarrow> dflt | Some v \<Rightarrow> v)"
| "py_get _ k dflt = Inl AttributeError"

text \<open>\<^verbatim>\<open>a or b\<close> on two values.\<close>

definition py_or :: "json \<Rightarrow> json \<Rightarrow> json" where
  "py_or a b = (if truthy a then a else b)"

text \<open>Truthiness of an \<^verbatim>\<open>Optional[str]\<close> argument: \<^verbatim>\<open>None\<close> and \<^verbatim>\<open>""\<close> are false.\<close>

fun truthy_str :: "string option \<Rightarrow> bool" where
  "truthy_str None = False"
| "truthy_str (Some s) = (s \<noteq> [])"

section \<open>The client state and the transport\<close>

datatype WebsocketConnectionState =
    CONNECTED
  | DISCONNECTED
  | AUTHENTICATION_FAILED
  | SOCKET_DISCONNECTED

record WebsocketConnectionStateChangeEvent =
  state :: WebsocketConnectionState
  account :: string
  exception :: "string option"

datatype event =
    MessageEvent json
  | StateChangeEvent WebsocketConnectionStateChangeEvent

datatype event_class = MessageClass | StateChangeClass

fun type_of :: "event \<Rightarrow> event_class" where
  "type_of (MessageEvent _) = MessageClass"
| "type_of (StateChangeEvent _) = StateChangeClass"

text \<open>
  A call handed to the transport: \<^verbatim>\<open>request(command, expected_response, **data)\<close> or
  \<^verbatim>\<open>request_v1(command, **data)\<close>, with the keyword arguments in the order they are written.
\<close>

datatype rpc_call =
    Request string string "(string \<times> json) list"
  | RequestV1 string "(string \<times> json) list"

text \<open>
  The transport (\<^verbatim>\<open>rpc.py\<close>) is not among the sources, so the daemon is a parameter: given
  the calls issued so far and the present call it either answers with data or raises.
\<close>

type_synonym daemon = "rpc_call list \<Rightarrow> rpc_call \<Rightarrow> exn + json"

text \<open>
  An event handler is a callback of the bridge. An exception it raises is caught and logged
  by the client, so a handler is modelled by what it does to the state outside the client,
  of type \<open>'b\<close>. Log output is not modelled: no logging call can raise or change the flow.

  \<open>sent\<close> and \<open>dispatched\<close> record what the client did: the calls handed to the transport
  and the events handed to \<^verbatim>\<open>_run_event_handler\<close>, oldest first.
\<close>

type_synonym 'b handler = "event \<Rightarrow> 'b \<Rightarrow> 'b"

record 'b client =
  subscriptions :: "string set"
  event_handlers :: "event_class \<Rightarrow> 'b handler list option"
  sent :: "rpc_call list"
  dispatched :: "event list"
  bridge :: 'b

definition init_client :: "'b \<Rightarrow> 'b client" where
  "init_client b =
     \<lparr>subscriptions = {}, event_handlers = (\<lambda>_. None), sent = [], dispatched = [], bridge = b\<rparr>"

definition add_event_handler :: "'b client \<Rightarrow> event_class \<Rightarrow> 'b handler \<Rightarrow> 'b client" where
  "add_event_handler c cls h =
     c\<lparr>event_handlers := (event_handlers c)
         (cls := Some ((case event_handlers c cls of None \<Rightarrow> [] | Some hs \<Rightarrow> hs) @ [h]))\<rparr>"

definition run_event_handler :: "'b client \<Rightarrow> event \<Rightarrow> 'b client" where
  "run_event_handler c evt =
     (let c1 = c\<lparr>dispatched := dispatched c @ [evt]\<rparr>
      in case event_handlers c1 (type_of evt) of
           None \<Rightarrow> c1
         | Some handlers \<Rightarrow> c1\<lparr>bridge := fold (\<lambda>h b. h evt b) handlers (bridge c1)\<rparr>)"

definition request :: "daemon \<Rightarrow> 'b client \<Rightarrow> rpc_call \<Rightarrow> (exn + json) \<times> 'b client" where
  "request d c call = (d (sent c) call, c\<lparr>sent := sent c @ [call]\<rparr>)"

section \<open>Subscription management\<close>

definition subscribe_call :: "string \<Rightarrow> rpc_call" where
  "subscribe_call username = Request ''subscribe'' ''subscribed'' [(''username'', JStr username)]"

definition unsubscribe_call :: "string \<Rightarrow> rpc_call" where
  "unsubscribe_call username =
     Request ''unsubscribe'' ''unsubscribed'' [(''username'', JStr username)]"

definition subscribe_failed_event :: "string \<Rightarrow> string \<Rightarrow> event" where
  "subscribe_failed_event username e =
     StateChangeEvent
       \<lparr>state = (if e = ''[401] Authorization failed!''
                 then AUTHENTICATION_FAILED else DISCONNECTED),
        account = username,
        exception = None\<rparr>"

fun subscribe_result :: "string \<Rightarrow> (exn + json) \<times> 'b client \<Rightarrow> (exn + bool) \<times> 'b client" where
  "subscribe_result username (Inr _, c) =
     (Inr True, c\<lparr>subscriptions := insert username (subscriptions c)\<rparr>)"
| "subscribe_result username (Inl (UnexpectedError e), c) =
     (Inr False, run_event_handler c (subscribe_failed_event username e))"
| "subscribe_result username (Inl other, c) = (Inl other, c)"

definition subscribe :: "daemon \<Rightarrow> 'b client \<Rightarrow> string \<Rightarrow> (exn + bool) \<times> 'b client" where
  "subscribe d c username = subscribe_result username (request d c (subscribe_call username))"

text \<open>\<^verbatim>\<open>set.remove\<close> raises \<^verbatim>\<open>KeyError\<close> for an element that is not in the set.\<close>

fun unsubscribe_result :: "string \<Rightarrow> (exn + json) \<times> 'b client \<Rightarrow> (exn + bool) \<times> 'b client" where
  "unsubscribe_result username (Inr _, c) =
     (if username \<in> subscriptions c
      then (Inr True, c\<lparr>subscriptions := subscriptions c - {username}\<rparr>)
      else (Inl (KeyError username), c))"
| "unsubscribe_result username (Inl (UnexpectedError e), c) = (Inr False, c)"
| "unsubscribe_result username (Inl other, c) = (Inl other, c)"

definition unsubscribe :: "daemon \<Rightarrow> 'b client \<Rightarrow> string \<Rightarrow> (exn + bool) \<times> 'b client" where
  "unsubscribe d c username =
     unsubscribe_result username (request d c (unsubscribe_call username))"

subsection \<open>Reconnect and disconnect\<close>

text \<open>
  \<^verbatim>\<open>_subscriptions\<close> is a Python \<^verbatim>\<open>set\<close>. Iterating over it, or \<^verbatim>\<open>list(...)\<close> of it, yields its
  elements in the order of its hash table, which the set's contents do not determine for
  the reader of the program. That order is the parameter \<open>order\<close>: the list of the elements
  of the set as the iteration yields them.
\<close>

fun resubscribe_loop :: "daemon \<Rightarrow> 'b client \<Rightarrow> string list \<Rightarrow> (exn + unit) \<times> 'b client" where
  "resubscribe_loop d c [] = (Inr (), c)"
| "resubscribe_loop d c (username # rest) =
     (case subscribe d c username of
        (Inl e, c1) \<Rightarrow> (Inl e, c1)
      | (Inr _, c1) \<Rightarrow> resubscribe_loop d c1 rest)"

definition resubscribe ::
  "(string set \<Rightarrow> string list) \<Rightarrow> daemon \<Rightarrow> 'b client \<Rightarrow> (exn + unit) \<times> 'b client" where
  "resubscribe order d c =
     (if subscriptions c \<noteq> {} then resubscribe_loop d c (order (subscriptions c))
      else (Inr (), c))"

definition disconnect_event :: "string \<Rightarrow> event" where
  "disconnect_event username =
     StateChangeEvent
       \<lparr>state = SOCKET_DISCONNECTED,
        account = username,
        exception = Some ''Disconnected from signald''\<rparr>"

definition on_disconnect :: "(string set \<Rightarrow> string list) \<Rightarrow> 'b client \<Rightarrow> 'b client" where
  "on_disconnect order c =
     (if subscriptions c \<noteq> {}
      then fold (\<lambda>username c1. run_event_handler c1 (disconnect_event username))
             (order (subscriptions c)) c
      else c)"

section \<open>Commands\<close>

subsection \<open>get_profile\<close>

text \<open>
  \<^verbatim>\<open>Profile.deserialize\<close> belongs to \<^verbatim>\<open>types.py\<close>, which is not among the sources; it is the
  parameter \<open>deserialize\<close> and may raise.
\<close>

definition get_profile_call :: "string \<Rightarrow> json \<Rightarrow> bool \<Rightarrow> rpc_call" where
  "get_profile_call username address use_cache =
     RequestV1 ''get_profile''
       [(''account'', JStr username), (''address'', address), (''async'', JBool use_cache)]"

fun get_profile_result ::
  "(json \<Rightarrow> exn + 'p) \<Rightarrow> (exn + json) \<times> 'b client \<Rightarrow> (exn + 'p option) \<times> 'b client" where
  "get_profile_result deserialize (Inl (UnexpectedResponse resp_type data), c) =
     (if resp_type = ''profile_not_available'' then (Inr None, c)
      else (Inl (UnexpectedResponse resp_type data), c))"
| "get_profile_result deserialize (Inl other, c) = (Inl other, c)"
| "get_profile_result deserialize (Inr resp, c) =
     (case deserialize resp of Inl e \<Rightarrow> (Inl e, c) | Inr profile \<Rightarrow> (Inr (Some profile), c))"

definition get_profile ::
  "(json \<Rightarrow> exn + 'p) \<Rightarrow> daemon \<Rightarrow> 'b client \<Rightarrow> string \<Rightarrow> json \<Rightarrow> bool
     \<Rightarrow> (exn + 'p option) \<times> 'b client" where
  "get_profile deserialize d c username address use_cache =
     get_profile_result deserialize (request d c (get_profile_call username address use_cache))"

subsection \<open>trust\<close>

definition str_arg :: "string option \<Rightarrow> json" where
  "str_arg v = (case v of None \<Rightarrow> JNone | Some s \<Rightarrow> JStr s)"

definition trust_call :: "string \<Rightarrow> json \<Rightarrow> string \<Rightarrow> (string \<times> json) list \<Rightarrow> rpc_call" where
  "trust_call username recipient trust_level args =
     RequestV1 ''trust''
       ([(''account'', JStr username)] @ args @
        [(''trust_level'', JStr trust_level), (''address'', recipient)])"

definition trust_request ::
  "daemon \<Rightarrow> 'b client \<Rightarrow> string \<Rightarrow> json \<Rightarrow> string \<Rightarrow> (string \<times> json) list
     \<Rightarrow> (exn + unit) \<times> 'b client" where
  "trust_request d c username recipient trust_level args =
     (case request d c (trust_call username recipient trust_level args) of
        (Inl e, c1) \<Rightarrow> (Inl e, c1)
      | (Inr _, c1) \<Rightarrow> (Inr (), c1))"

definition trust ::
  "daemon \<Rightarrow> 'b client \<Rightarrow> string \<Rightarrow> json \<Rightarrow> string \<Rightarrow> string option \<Rightarrow> string option
     \<Rightarrow> (exn + unit) \<times> 'b client" where
  "trust d c username recipient trust_level safety_number qr_code_data =
     (if truthy_str safety_number then
        (if truthy_str qr_code_data
         then (Inl (ValueError ''only one of safety_number and qr_code_data must be set''), c)
         else trust_request d c username recipient trust_level
                [(''safety_number'', str_arg safety_number)])
      else if truthy_str qr_code_data then
        trust_request d c username recipient trust_level
          [(''qr_code_data'', str_arg qr_code_data)]
      else (Inl (ValueError ''safety_number or qr_code_data is required''), c))"

subsection \<open>send\<close>

text \<open>
  \<^verbatim>\<open>s in x\<close> for a string \<open>s\<close>: membership in a list, substring of a str, key of a dict;
  \<^verbatim>\<open>None\<close>, bools and ints are not iterable.
\<close>

fun py_in :: "string \<Rightarrow> json \<Rightarrow> exn + bool" where
  "py_in s (JList xs) = Inr (JStr s \<in> set xs)"
| "py_in s (JStr t) = Inr (sublist s t)"
| "py_in s (JDict kvs) = Inr (s \<in> set (map fst kvs))"
| "py_in s _ = Inl TypeError"

text \<open>
  The elements a \<^verbatim>\<open>for\<close> loop takes from a value: those of a list, the keys of a dict, the
  characters of a str.
\<close>

fun py_iter :: "json \<Rightarrow> exn + json list" where
  "py_iter (JList xs) = Inr xs"
| "py_iter (JDict kvs) = Inr (map (\<lambda>kv. JStr (fst kv)) kvs)"
| "py_iter (JStr s) = Inr (map (\<lambda>ch. JStr [ch]) s)"
| "py_iter _ = Inl TypeError"

text \<open>
  What an f-string puts for a value. \<^verbatim>\<open>None\<close>, bools and strs are written out; ints, lists and
  dicts are left to the parameter \<open>repr\<close>, Python's own formatting of them.
\<close>

fun py_str :: "(json \<Rightarrow> string) \<Rightarrow> json \<Rightarrow> string" where
  "py_str repr JNone = ''None''"
| "py_str repr (JBool b) = (if b then ''True'' else ''False'')"
| "py_str repr (JStr s) = s"
| "py_str repr v = repr v"

text \<open>\<^verbatim>\<open>"\n".join(lines)\<close>\<close>

fun join_lines :: "string list \<Rightarrow> string" where
  "join_lines [] = []"
| "join_lines [l] = l"
| "join_lines (l # m # ls) = l @ CHR 0x0A # join_lines (m # ls)"

definition dict_get :: "(string \<times> json) list \<Rightarrow> string \<Rightarrow> json \<Rightarrow> json" where
  "dict_get kvs k dflt = (case map_of kvs k of None \<Rightarrow> dflt | Some v \<Rightarrow> v)"

datatype recipient = Address json | GroupID string

definition recipient_to_args :: "recipient \<Rightarrow> bool \<Rightarrow> (string \<times> json) list" where
  "recipient_to_args recipient simple_name =
     (case recipient of
        Address a \<Rightarrow> [(if simple_name then ''address'' else ''recipientAddress'', a)]
      | GroupID g \<Rightarrow> [(if simple_name then ''group'' else ''recipientGroupId'', JStr g)])"

text \<open>The three local variables that the loop over the results updates.\<close>

record send_acc =
  errors :: "string list"
  unregistered_failures :: "string list"
  successful_send_count :: nat

definition send_acc0 :: send_acc where
  "send_acc0 = \<lparr>errors = [], unregistered_failures = [], successful_send_count = 0\<rparr>"

definition network_failure_msg :: "string \<Rightarrow> string" where
  "network_failure_msg number =
     ''Network failure occurred while sending message to '' @ number @ ''.''"

definition unregistered_failure_msg :: "string \<Rightarrow> string" where
  "unregistered_failure_msg number =
     ''Unregistered failure occurred while sending message to '' @ number @ ''.''"

definition identity_failure_msg :: "string \<Rightarrow> string \<Rightarrow> string" where
  "identity_failure_msg number identity =
     ''Identity failure occurred while sending message to '' @ number @ ''. New identity: ''
       @ identity"

definition proof_required_msg :: "string \<Rightarrow> string \<Rightarrow> string" where
  "proof_required_msg number message =
     ''Proof required failure occurred while sending message to '' @ number @ ''. Message: ''
       @ message"

definition submit_challenge_call :: rpc_call where
  "submit_challenge_call = RequestV1 ''submit_challenge'' []"

text \<open>
  The branch for a result whose \<^verbatim>\<open>proof_required_failure\<close> is truthy. The message is appended
  before the options are looked at; \<^verbatim>\<open>RECAPTCHA\<close> is tested first and \<^verbatim>\<open>PUSH_CHALLENGE\<close>
  only when it is absent.
\<close>

definition proof_required ::
  "(json \<Rightarrow> string) \<Rightarrow> daemon \<Rightarrow> 'b client \<Rightarrow> send_acc \<Rightarrow> json \<Rightarrow> json
     \<Rightarrow> (exn + send_acc) \<times> 'b client" where
  "proof_required repr d c acc number proof_required_failure =
     (case proof_required_failure of
        JDict prf \<Rightarrow>
          (let options = dict_get prf ''options'' JNone;
               acc1 = acc\<lparr>errors := errors acc @
                        [proof_required_msg (py_str repr number)
                           (py_str repr (dict_get prf ''message'' JNone))]\<rparr>
           in case py_in ''RECAPTCHA'' options of
                Inl e \<Rightarrow> (Inl e, c)
              | Inr True \<Rightarrow> (Inr (acc1\<lparr>errors := errors acc1 @ [''RECAPTCHA required.'']\<rparr>), c)
              | Inr False \<Rightarrow>
                  (case py_in ''PUSH_CHALLENGE'' options of
                     Inl e \<Rightarrow> (Inl e, c)
                   | Inr True \<Rightarrow>
                       (case request d c submit_challenge_call of
                          (Inl e, c1) \<Rightarrow> (Inl e, c1)
                        | (Inr _, c1) \<Rightarrow> (Inr acc1, c1))
                   | Inr False \<Rightarrow> (Inr acc1, c)))
      | _ \<Rightarrow> (Inl AttributeError, c))"

text \<open>
  One turn of the loop over the results. The address is read under the key \<^verbatim>\<open>addres\<close>, as
  the source spells it.
\<close>

definition classify_result ::
  "(json \<Rightarrow> string) \<Rightarrow> daemon \<Rightarrow> 'b client \<Rightarrow> send_acc \<Rightarrow> json
     \<Rightarrow> (exn + send_acc) \<times> 'b client" where
  "classify_result repr d c acc result =
     (case result of
        JDict res \<Rightarrow>
          (case dict_get res ''addres'' (JDict []) of
             JDict address \<Rightarrow>
               (let number = py_or (dict_get address ''number'' JNone)
                                   (dict_get address ''uuid'' JNone);
                    proof_required_failure = dict_get res ''proof_required_failure'' JNone
                in if truthy (dict_get res ''networkFailure'' (JBool False)) then
                     (Inr (acc\<lparr>errors := errors acc @
                                [network_failure_msg (py_str repr number)]\<rparr>), c)
                   else if truthy (dict_get res ''unregisteredFailure'' (JBool False)) then
                     (Inr (acc\<lparr>unregistered_failures := unregistered_failures acc @
                                [unregistered_failure_msg (py_str repr number)]\<rparr>), c)
                   else if truthy (dict_get res ''identityFailure'' (JStr [])) then
                     (Inr (acc\<lparr>errors := errors acc @
                                [identity_failure_msg (py_str repr number)
                                   (py_str repr (dict_get res ''identityFailure'' (JStr [])))]\<rparr>),
                      c)
                   else if truthy proof_required_failure then
                     proof_required repr d c acc number proof_required_failure
                   else
                     (Inr (acc\<lparr>successful_send_count := Suc (successful_send_count acc)\<rparr>), c))
           | _ \<Rightarrow> (Inl AttributeError, c))
      | _ \<Rightarrow> (Inl AttributeError, c))"

fun classify_results ::
  "(json \<Rightarrow> string) \<Rightarrow> daemon \<Rightarrow> 'b client \<Rightarrow> send_acc \<Rightarrow> json list
     \<Rightarrow> (exn + send_acc) \<times> 'b client" where
  "classify_results repr d c acc [] = (Inr acc, c)"
| "classify_results repr d c acc (result # rest) =
     (case classify_result repr d c acc result of
        (Inl e, c1) \<Rightarrow> (Inl e, c1)
      | (Inr acc1, c1) \<Rightarrow> classify_results repr d c1 acc1 rest)"

definition send_call ::
  "string \<Rightarrow> recipient \<Rightarrow> string \<Rightarrow> json option \<Rightarrow> json list option \<Rightarrow> json list option
     \<Rightarrow> int option \<Rightarrow> rpc_call" where
  "send_call username recipient body quote attachments mentions timestamp =
     RequestV1 ''send''
       ([(''username'', JStr username),
         (''messageBody'', JStr body),
         (''attachments'', JList (case attachments of None \<Rightarrow> [] | Some xs \<Rightarrow> xs)),
         (''quote'', (case quote of None \<Rightarrow> JNone | Some q \<Rightarrow> q)),
         (''mentions'', JList (case mentions of None \<Rightarrow> [] | Some xs \<Rightarrow> xs)),
         (''timestamp'', (case timestamp of None \<Rightarrow> JNone | Some t \<Rightarrow> JInt t))]
        @ recipient_to_args recipient False)"

text \<open>What follows the loop: the promotion of the unregistered failures and the raise.\<close>

definition final_errors :: "send_acc \<Rightarrow> nat \<Rightarrow> string list" where
  "final_errors acc n =
     (if length (unregistered_failures acc) = n
      then errors acc @ unregistered_failures acc else errors acc)"

definition send_outcome :: "send_acc \<Rightarrow> nat \<Rightarrow> exn + unit" where
  "send_outcome acc n =
     (if final_errors acc n \<noteq> [] then Inl (Exception (join_lines (final_errors acc n)))
      else Inr ())"

definition send_response ::
  "(json \<Rightarrow> string) \<Rightarrow> daemon \<Rightarrow> 'b client \<Rightarrow> json \<Rightarrow> (exn + unit) \<times> 'b client" where
  "send_response repr d c resp =
     (case py_get resp ''results'' (JList []) of
        Inl e \<Rightarrow> (Inl e, c)
      | Inr results \<Rightarrow>
          (case py_iter results of
             Inl e \<Rightarrow> (Inl e, c)
           | Inr rs \<Rightarrow>
               (case classify_results repr d c send_acc0 rs of
                  (Inl e, c1) \<Rightarrow> (Inl e, c1)
                | (Inr acc, c1) \<Rightarrow> (send_outcome acc (length rs), c1))))"

definition send ::
  "(json \<Rightarrow> string) \<Rightarrow> daemon \<Rightarrow> 'b client \<Rightarrow> string \<Rightarrow> recipient \<Rightarrow> string \<Rightarrow> json option
     \<Rightarrow> json list option \<Rightarrow> json list option \<Rightarrow> int option \<Rightarrow> (exn + unit) \<times> 'b client" where
  "send repr d c username recipient body quote attachments mentions timestamp =
     (case request d c (send_call username recipient body quote attachments mentions timestamp) of
        (Inl e, c1) \<Rightarrow> (Inl e, c1)
      | (Inr resp, c1) \<Rightarrow> send_response repr d c1 resp)"

section \<open>The store of disappearing messages\<close>

text \<open>
  The database belongs to a library. It is modelled by the rows of the table
  \<^verbatim>\<open>disappearing_message\<close> and by the error, if any, with which a query fails.
  \<^verbatim>\<open>fetchrow\<close> is given for the query that \<^verbatim>\<open>get\<close> sends: the first row whose \<^verbatim>\<open>room_id\<close> and
  \<^verbatim>\<open>mxid\<close> are the two arguments, or \<^verbatim>\<open>None\<close>.
\<close>

record DisappearingMessage =
  room_id :: string
  mxid :: string
  expiration_seconds :: int
  expiration_ts :: "int option"

record database =
  disappearing_message :: "DisappearingMessage list"
  failure :: "exn option"

definition fetchrow :: "database \<Rightarrow> string \<Rightarrow> string \<Rightarrow> exn + DisappearingMessage option" where
  "fetchrow db room event =
     (case failure db of
        Some e \<Rightarrow> Inl e
      | None \<Rightarrow> Inr (find (\<lambda>r. room_id r = room \<and> mxid r = event) (disappearing_message db)))"

text \<open>\<^verbatim>\<open>cls(**row)\<close>: unpacking \<^verbatim>\<open>None\<close> raises \<^verbatim>\<open>TypeError\<close>.\<close>

fun from_row :: "DisappearingMessage option \<Rightarrow> exn + DisappearingMessage" where
  "from_row None = Inl TypeError"
| "from_row (Some row) = Inr row"

definition get :: "database \<Rightarrow> string \<Rightarrow> string \<Rightarrow> exn + DisappearingMessage option" where
  "get db room event =
     (case fetchrow db room event of
        Inl e \<Rightarrow> Inr None
      | Inr row \<Rightarrow> (case from_row row of Inl e \<Rightarrow> Inr None | Inr m \<Rightarrow> Inr (Some m)))"

section \<open>Properties of subscribe and unsubscribe\<close>

lemma subscribe_Inr:
  "d (sent c) (subscribe_call a) = Inr r \<Longrightarrow>
   subscribe d c a = (Inr True, c\<lparr>sent := sent c @ [subscribe_call a],
                                  subscriptions := insert a (subscriptions c)\<rparr>)"
  by (simp add: subscribe_def request_def)

lemma subscribe_UnexpectedError:
  "d (sent c) (subscribe_call a) = Inl (UnexpectedError e) \<Longrightarrow>
   subscribe d c a =
     (Inr False, run_event_handler (c\<lparr>sent := sent c @ [subscribe_call a]\<rparr>)
                   (subscribe_failed_event a e))"
  by (simp add: subscribe_def request_def)

lemma subscribe_other:
  "d (sent c) (subscribe_call a) = Inl x \<Longrightarrow> \<forall>e. x \<noteq> UnexpectedError e \<Longrightarrow>
   subscribe d c a = (Inl x, c\<lparr>sent := sent c @ [subscribe_call a]\<rparr>)"
  by (cases x) (simp_all add: subscribe_def request_def)

lemma subscriptions_run_event_handler [simp]:
  "subscriptions (run_event_handler c evt) = subscriptions c"
  by (simp add: run_event_handler_def Let_def split: option.splits)

lemma sent_run_event_handler [simp]:
  "sent (run_event_handler c evt) = sent c"
  by (simp add: run_event_handler_def Let_def split: option.splits)

lemma dispatched_run_event_handler [simp]:
  "dispatched (run_event_handler c evt) = dispatched c @ [evt]"
  by (simp add: run_event_handler_def Let_def split: option.splits)

lemma event_handlers_run_event_handler [simp]:
  "event_handlers (run_event_handler c evt) = event_handlers c"
  by (simp add: run_event_handler_def Let_def split: option.splits)

lemma unsubscribe_Inr:
  "d (sent c) (unsubscribe_call a) = Inr r \<Longrightarrow>
   unsubscribe d c a =
     (if a \<in> subscriptions c
      then (Inr True, c\<lparr>sent := sent c @ [unsubscribe_call a],
                         subscriptions := subscriptions c - {a}\<rparr>)
      else (Inl (KeyError a), c\<lparr>sent := sent c @ [unsubscribe_call a]\<rparr>))"
  by (simp add: unsubscribe_def request_def)

lemma unsubscribe_UnexpectedError:
  "d (sent c) (unsubscribe_call a) = Inl (UnexpectedError e) \<Longrightarrow>
   unsubscribe d c a = (Inr False, c\<lparr>sent := sent c @ [unsubscribe_call a]\<rparr>)"
  by (simp add: unsubscribe_def request_def)

lemma unsubscribe_other:
  "d (sent c) (unsubscribe_call a) = Inl x \<Longrightarrow> \<forall>e. x \<noteq> UnexpectedError e \<Longrightarrow>
   unsubscribe d c a = (Inl x, c\<lparr>sent := sent c @ [unsubscribe_call a]\<rparr>)"
  by (cases x) (simp_all add: unsubscribe_def request_def)

lemma subscriptions_subscribe:
  "subscriptions (snd (subscribe d c a)) =
     (if isl (d (sent c) (subscribe_call a)) then subscriptions c
      else insert a (subscriptions c))"
proof (cases "d (sent c) (subscribe_call a)")
  case (Inr r)
  then show ?thesis by (simp add: subscribe_Inr)
next
  case (Inl x)
  then show ?thesis
    by (cases x) (simp_all add: subscribe_def request_def)
qed

lemma subscriptions_unsubscribe:
  "subscriptions (snd (unsubscribe d c a)) =
     (if isl (d (sent c) (unsubscribe_call a)) then subscriptions c
      else subscriptions c - {a})"
proof (cases "d (sent c) (unsubscribe_call a)")
  case (Inr r)
  then show ?thesis by (simp add: unsubscribe_Inr)
next
  case (Inl x)
  then show ?thesis
    by (cases x) (simp_all add: unsubscribe_def request_def)
qed


lemma dispatched_unsubscribe:
  "dispatched (snd (unsubscribe d c a)) = dispatched c"
proof (cases "d (sent c) (unsubscribe_call a)")
  case (Inr r)
  then show ?thesis by (simp add: unsubscribe_Inr)
next
  case (Inl x)
  then show ?thesis
    by (cases x) (simp_all add: unsubscribe_def request_def)
qed

lemma unsubscribe_False_iff:
  "fst (unsubscribe d c a) = Inr False \<longleftrightarrow>
     (\<exists>e. d (sent c) (unsubscribe_call a) = Inl (UnexpectedError e))"
proof (cases "d (sent c) (unsubscribe_call a)")
  case (Inr r)
  then show ?thesis by (simp add: unsubscribe_Inr)
next
  case (Inl x)
  then show ?thesis
    by (cases x) (simp_all add: unsubscribe_def request_def)
qed

text \<open>
  Claim C3. After subscribe or unsubscribe the subscription set differs from the one before
  only when the daemon acknowledged the request: a subscribe that is answered adds the
  account, a subscribe that raises (whatever the error) leaves the set as it was, so an
  account that was not in the set is still not in it; an unsubscribe that is answered
  removes the account, an unsubscribe that raises leaves the set as it was. An unsubscribe
  that fails with the transport's \<^verbatim>\<open>UnexpectedError\<close> returns \<^verbatim>\<open>False\<close>, and no unsubscribe
  ever dispatches an event.
\<close>

theorem subscription_set_changes_only_on_acknowledgement:
  "subscriptions (snd (subscribe d c a)) =
     (if isl (d (sent c) (subscribe_call a)) then subscriptions c
      else insert a (subscriptions c))
   \<and> (isl (d (sent c) (subscribe_call a)) \<and> a \<notin> subscriptions c
        \<longrightarrow> a \<notin> subscriptions (snd (subscribe d c a)))
   \<and> subscriptions (snd (unsubscribe d c a)) =
     (if isl (d (sent c) (unsubscribe_call a)) then subscriptions c
      else subscriptions c - {a})
   \<and> (d (sent c) (unsubscribe_call a) = Inl (UnexpectedError e)
        \<longrightarrow> fst (unsubscribe d c a) = Inr False)
   \<and> dispatched (snd (unsubscribe d c a)) = dispatched c"
  by (simp add: subscriptions_subscribe subscriptions_unsubscribe dispatched_unsubscribe
        unsubscribe_UnexpectedError)

theorem subscription_set_changes_only_on_acknowledgement_witness:
  "subscriptions (snd (subscribe (\<lambda>_ _. Inl (UnexpectedError ''down'')) (init_client ()) ''a''))
     = {}
   \<and> ''a'' \<notin> subscriptions
        (snd (subscribe (\<lambda>_ _. Inl (UnexpectedError ''down'')) (init_client ()) ''a''))
   \<and> subscriptions
        (snd (unsubscribe (\<lambda>_ _. Inl (UnexpectedError ''down''))
               ((init_client ())\<lparr>subscriptions := {''a''}\<rparr>) ''a'')) = {''a''}
   \<and> fst (unsubscribe (\<lambda>_ _. Inl (UnexpectedError ''down''))
               ((init_client ())\<lparr>subscriptions := {''a''}\<rparr>) ''a'') = Inr False
   \<and> subscriptions (snd (subscribe (\<lambda>_ _. Inr JNone) (init_client ()) ''a'')) = {''a''}
   \<and> subscriptions
        (snd (unsubscribe (\<lambda>_ _. Inr JNone)
               ((init_client ())\<lparr>subscriptions := {''a''}\<rparr>) ''a'')) = {}"
  using subscription_set_changes_only_on_acknowledgement
          [of "\<lambda>_ _. Inl (UnexpectedError ''down'')" "init_client ()" "''a''" "''down''"]
        subscription_set_changes_only_on_acknowledgement
          [of "\<lambda>_ _. Inl (UnexpectedError ''down'')"
              "(init_client ())\<lparr>subscriptions := {''a''}\<rparr>" "''a''" "''down''"]
        subscription_set_changes_only_on_acknowledgement
          [of "\<lambda>_ _. Inr JNone" "init_client ()" "''a''" "''down''"]
        subscription_set_changes_only_on_acknowledgement
          [of "\<lambda>_ _. Inr JNone" "(init_client ())\<lparr>subscriptions := {''a''}\<rparr>" "''a''" "''down''"]
  by (simp add: init_client_def)

text \<open>
  Claim C4. When the subscribe request for account \<open>a\<close> raises the transport's
  \<^verbatim>\<open>UnexpectedError\<close> with text \<open>e\<close>, subscribe returns \<^verbatim>\<open>False\<close>, leaves the subscription
  set as it was and dispatches exactly one event: a connection state change for \<open>a\<close> whose
  state is \<open>AUTHENTICATION_FAILED\<close> when \<open>e\<close> is exactly \<^verbatim>\<open>[401] Authorization failed!\<close> and
  \<open>DISCONNECTED\<close> for every other text.
\<close>

theorem subscribe_failure_dispatches_one_event:
  assumes "d (sent c) (subscribe_call a) = Inl (UnexpectedError e)"
  shows "fst (subscribe d c a) = Inr False
       \<and> subscriptions (snd (subscribe d c a)) = subscriptions c
       \<and> dispatched (snd (subscribe d c a)) =
           dispatched c @
             [StateChangeEvent
                \<lparr>state = (if e = ''[401] Authorization failed!''
                          then AUTHENTICATION_FAILED else DISCONNECTED),
                 account = a, exception = None\<rparr>]"
  using assms by (simp add: subscribe_UnexpectedError subscribe_failed_event_def)

theorem subscribe_failure_dispatches_one_event_witness:
  "fst (subscribe (\<lambda>_ _. Inl (UnexpectedError ''[401] Authorization failed!''))
              (init_client ()) ''+123'') = Inr False
   \<and> dispatched (snd (subscribe (\<lambda>_ _. Inl (UnexpectedError ''[401] Authorization failed!''))
              (init_client ()) ''+123'')) =
       [StateChangeEvent \<lparr>state = AUTHENTICATION_FAILED, account = ''+123'', exception = None\<rparr>]
   \<and> dispatched (snd (subscribe (\<lambda>_ _. Inl (UnexpectedError ''[401] Authorization failed''))
              (init_client ()) ''+123'')) =
       [StateChangeEvent \<lparr>state = DISCONNECTED, account = ''+123'', exception = None\<rparr>]"
  using subscribe_failure_dispatches_one_event
          [of "\<lambda>_ _. Inl (UnexpectedError ''[401] Authorization failed!'')" "init_client ()"
              "''+123''" "''[401] Authorization failed!''"]
        subscribe_failure_dispatches_one_event
          [of "\<lambda>_ _. Inl (UnexpectedError ''[401] Authorization failed'')" "init_client ()"
              "''+123''" "''[401] Authorization failed''"]
  by (simp add: init_client_def)

text \<open>
  Claim C10. When account \<open>a\<close> is not in the subscription set and the daemon acknowledges
  the unsubscribe request, unsubscribe raises \<^verbatim>\<open>KeyError\<close> (from \<^verbatim>\<open>set.remove\<close>) instead
  of returning; the only replies that unsubscribe turns into the return value \<^verbatim>\<open>False\<close> are
  the transport's \<^verbatim>\<open>UnexpectedError\<close>s.
\<close>

theorem unsubscribe_missing_account_raises:
  "(a \<notin> subscriptions c \<and> d (sent c) (unsubscribe_call a) = Inr r
      \<longrightarrow> fst (unsubscribe d c a) = Inl (KeyError a))
   \<and> (fst (unsubscribe d c a) = Inr False
        \<longleftrightarrow> (\<exists>e. d (sent c) (unsubscribe_call a) = Inl (UnexpectedError e)))"
  by (simp add: unsubscribe_False_iff unsubscribe_Inr)

theorem unsubscribe_missing_account_raises_witness:
  "''a'' \<notin> subscriptions (init_client ())
   \<and> fst (unsubscribe (\<lambda>_ _. Inr JNone) (init_client ()) ''a'') = Inl (KeyError ''a'')"
  using unsubscribe_missing_account_raises
          [of "''a''" "init_client ()" "\<lambda>_ _. Inr JNone" JNone]
  by (simp add: init_client_def)


section \<open>Properties of reconnect and disconnect\<close>

lemma sent_subscribe:
  "sent (snd (subscribe d c a)) = sent c @ [subscribe_call a]"
proof (cases "d (sent c) (subscribe_call a)")
  case (Inr r)
  then show ?thesis by (simp add: subscribe_Inr)
next
  case (Inl x)
  then show ?thesis
    by (cases x) (simp_all add: subscribe_def request_def)
qed

lemma resubscribe_loop_subscriptions:
  "set us \<subseteq> subscriptions c \<Longrightarrow>
   subscriptions (snd (resubscribe_loop d c us)) = subscriptions c"
proof (induction us arbitrary: c)
  case Nil
  then show ?case by simp
next
  case (Cons u us)
  obtain r c1 where s: "subscribe d c u = (r, c1)" by (cases "subscribe d c u")
  have "subscriptions c1 = subscriptions c"
    using subscriptions_subscribe [of d c u] s Cons.prems by (auto simp: insert_absorb)
  then show ?case using Cons s by (cases r) auto
qed

lemma subscribe_caught:
  assumes "\<forall>e. d (sent c) (subscribe_call a) = Inl e \<longrightarrow> (\<exists>m. e = UnexpectedError m)"
  shows "\<exists>b. fst (subscribe d c a) = Inr b"
proof (cases "d (sent c) (subscribe_call a)")
  case (Inr r)
  then show ?thesis by (auto simp add: subscribe_Inr)
next
  case (Inl x)
  with assms obtain m where "x = UnexpectedError m" by blast
  with Inl show ?thesis by (auto simp add: subscribe_UnexpectedError)
qed

lemma resubscribe_loop_all_caught:
  assumes "\<forall>i<length us. \<forall>e.
             d (sent c @ map subscribe_call (take i us)) (subscribe_call (us ! i)) = Inl e
               \<longrightarrow> (\<exists>m. e = UnexpectedError m)"
  shows "fst (resubscribe_loop d c us) = Inr ()
       \<and> sent (snd (resubscribe_loop d c us)) = sent c @ map subscribe_call us"
  using assms
proof (induction us arbitrary: c)
  case Nil
  then show ?case by simp
next
  case (Cons u us)
  obtain r c1 where s: "subscribe d c u = (r, c1)" by (cases "subscribe d c u")
  have c1: "sent c1 = sent c @ [subscribe_call u]"
    using sent_subscribe [of d c u] s by simp
  from Cons.prems have "\<forall>e. d (sent c) (subscribe_call u) = Inl e \<longrightarrow> (\<exists>m. e = UnexpectedError m)"
    by fastforce
  then have "\<exists>b. fst (subscribe d c u) = Inr b" by (rule subscribe_caught)
  with s obtain b where r: "r = Inr b" by auto
  have "\<forall>i<length us. \<forall>e.
          d (sent c1 @ map subscribe_call (take i us)) (subscribe_call (us ! i)) = Inl e
            \<longrightarrow> (\<exists>m. e = UnexpectedError m)"
  proof (intro allI impI)
    fix i e
    assume i: "i < length us"
      and e: "d (sent c1 @ map subscribe_call (take i us)) (subscribe_call (us ! i)) = Inl e"
    from i have "Suc i < length (u # us)" by simp
    with Cons.prems have "\<forall>e. d (sent c @ map subscribe_call (take (Suc i) (u # us)))
        (subscribe_call ((u # us) ! Suc i)) = Inl e \<longrightarrow> (\<exists>m. e = UnexpectedError m)"
      by blast
    with e show "\<exists>m. e = UnexpectedError m" by (simp add: c1)
  qed
  from Cons.IH [OF this] show ?case using s r c1 by simp
qed

lemma resubscribe_loop_first_uncaught:
  assumes "k < length us"
    and "\<forall>i<k. \<forall>e.
             d (sent c @ map subscribe_call (take i us)) (subscribe_call (us ! i)) = Inl e
               \<longrightarrow> (\<exists>m. e = UnexpectedError m)"
    and "d (sent c @ map subscribe_call (take k us)) (subscribe_call (us ! k)) = Inl x"
    and "\<forall>m. x \<noteq> UnexpectedError m"
  shows "fst (resubscribe_loop d c us) = Inl x
       \<and> sent (snd (resubscribe_loop d c us)) = sent c @ map subscribe_call (take (Suc k) us)"
  using assms(1-3)
proof (induction us arbitrary: c k)
  case Nil
  then show ?case by simp
next
  case (Cons u us)
  show ?case
  proof (cases k)
    case 0
    with Cons.prems(3) have "d (sent c) (subscribe_call u) = Inl x" by simp
    then have "subscribe d c u = (Inl x, c\<lparr>sent := sent c @ [subscribe_call u]\<rparr>)"
      using assms(4) by (rule subscribe_other)
    then show ?thesis using 0 by simp
  next
    case (Suc j)
    obtain r c1 where s: "subscribe d c u = (r, c1)" by (cases "subscribe d c u")
    have c1: "sent c1 = sent c @ [subscribe_call u]"
      using sent_subscribe [of d c u] s by simp
    from Cons.prems(2) Suc
    have "\<forall>e. d (sent c) (subscribe_call u) = Inl e \<longrightarrow> (\<exists>m. e = UnexpectedError m)"
      by fastforce
    then have "\<exists>b. fst (subscribe d c u) = Inr b" by (rule subscribe_caught)
    with s obtain b where r: "r = Inr b" by auto
    have j: "j < length us" using Cons.prems(1) Suc by simp
    have caught: "\<forall>i<j. \<forall>e.
          d (sent c1 @ map subscribe_call (take i us)) (subscribe_call (us ! i)) = Inl e
            \<longrightarrow> (\<exists>m. e = UnexpectedError m)"
    proof (intro allI impI)
      fix i e
      assume i: "i < j"
        and e: "d (sent c1 @ map subscribe_call (take i us)) (subscribe_call (us ! i)) = Inl e"
      from i Suc have "Suc i < k" by simp
      with Cons.prems(2) have "\<forall>e. d (sent c @ map subscribe_call (take (Suc i) (u # us)))
          (subscribe_call ((u # us) ! Suc i)) = Inl e \<longrightarrow> (\<exists>m. e = UnexpectedError m)"
        by blast
      with e show "\<exists>m. e = UnexpectedError m" by (simp add: c1)
    qed
    have xj: "d (sent c1 @ map subscribe_call (take j us)) (subscribe_call (us ! j)) = Inl x"
      using Cons.prems(3) Suc by (simp add: c1)
    from Cons.IH [OF j caught xj] show ?thesis using s r c1 Suc by simp
  qed
qed

lemma dispatched_subscribe:
  "dispatched (snd (subscribe d c a)) =
     dispatched c @
       (case d (sent c) (subscribe_call a) of
          Inl (UnexpectedError m) \<Rightarrow> [subscribe_failed_event a m]
        | _ \<Rightarrow> [])"
proof (cases "d (sent c) (subscribe_call a)")
  case (Inr r)
  then show ?thesis by (simp add: subscribe_Inr)
next
  case (Inl x)
  then show ?thesis
    by (cases x) (simp_all add: subscribe_def request_def)
qed

lemma resubscribe_loop_dispatched:
  assumes "fst (resubscribe_loop d c us) = Inr ()"
  shows "dispatched (snd (resubscribe_loop d c us)) =
           dispatched c @
             concat (map (\<lambda>i. case d (sent c @ map subscribe_call (take i us))
                                       (subscribe_call (us ! i)) of
                                 Inl (UnexpectedError m) \<Rightarrow> [subscribe_failed_event (us ! i) m]
                               | _ \<Rightarrow> [])
                       [0..<length us])"
  using assms
proof (induction us arbitrary: c)
  case Nil
  then show ?case by simp
next
  case (Cons u us)
  obtain r c1 where s: "subscribe d c u = (r, c1)" by (cases "subscribe d c u")
  have c1: "sent c1 = sent c @ [subscribe_call u]"
    using sent_subscribe [of d c u] s by simp
  have d1: "dispatched c1 = dispatched c @
       (case d (sent c) (subscribe_call u) of
          Inl (UnexpectedError m) \<Rightarrow> [subscribe_failed_event u m]
        | _ \<Rightarrow> [])"
    using dispatched_subscribe [of d c u] s by simp
  from Cons.prems s obtain b where r: "r = Inr b" by (cases r) auto
  with Cons.prems s have "fst (resubscribe_loop d c1 us) = Inr ()" by simp
  from Cons.IH [OF this] have ih: "dispatched (snd (resubscribe_loop d c1 us)) =
           dispatched c1 @
             concat (map (\<lambda>i. case d (sent c1 @ map subscribe_call (take i us))
                                       (subscribe_call (us ! i)) of
                                 Inl (UnexpectedError m) \<Rightarrow> [subscribe_failed_event (us ! i) m]
                               | _ \<Rightarrow> [])
                       [0..<length us])" .
  have "[0..<length (u # us)] = 0 # map Suc [0..<length us]"
    by (simp add: upt_conv_Cons map_Suc_upt del: upt_Suc)
  then show ?case using s r ih
    by (simp add: c1 d1 comp_def del: upt_Suc cong: sum.case_cong exn.case_cong)
qed

lemma fold_disconnect:
  "subscriptions (fold (\<lambda>username c1. run_event_handler c1 (disconnect_event username)) us c)
     = subscriptions c
   \<and> sent (fold (\<lambda>username c1. run_event_handler c1 (disconnect_event username)) us c) = sent c
   \<and> dispatched (fold (\<lambda>username c1. run_event_handler c1 (disconnect_event username)) us c)
     = dispatched c @ map disconnect_event us"
  by (induction us arbitrary: c) simp_all

text \<open>
  Claim C5, as stated, promises one resubscription per tracked account in the order in
  which the accounts were subscribed. The set is a hash set: after subscribing \<open>x\<close> and then
  \<open>y\<close>, an iteration that yields \<open>y\<close> before \<open>x\<close> is an enumeration of the set like any
  other, and the subscribe requests then go out for \<open>y\<close> first. And with the set \<open>{x, y}\<close>
  and a transport that raises \<^verbatim>\<open>UnexpectedResponse\<close>, which subscribe does not catch, the
  handler raises after the first request: the second account gets none.
\<close>

theorem resubscribe_insertion_order_counterexample:
  "subscriptions (snd (subscribe (\<lambda>_ _. Inr JNone)
        (snd (subscribe (\<lambda>_ _. Inr JNone) (init_client ()) ''x'')) ''y'')) = set [''y'', ''x'']
   \<and> distinct [''y'', ''x'']
   \<and> sent (snd (resubscribe (\<lambda>_. [''y'', ''x'']) (\<lambda>_ _. Inr JNone)
        (snd (subscribe (\<lambda>_ _. Inr JNone)
           (snd (subscribe (\<lambda>_ _. Inr JNone) (init_client ()) ''x'')) ''y''))))
     = [subscribe_call ''x'', subscribe_call ''y''] @ [subscribe_call ''y'', subscribe_call ''x'']
   \<and> sent (snd (resubscribe (\<lambda>_. [''y'', ''x'']) (\<lambda>_ _. Inr JNone)
        (snd (subscribe (\<lambda>_ _. Inr JNone)
           (snd (subscribe (\<lambda>_ _. Inr JNone) (init_client ()) ''x'')) ''y''))))
     \<noteq> [subscribe_call ''x'', subscribe_call ''y''] @ [subscribe_call ''x'', subscribe_call ''y'']
   \<and> resubscribe (\<lambda>_. [''x'', ''y'']) (\<lambda>_ _. Inl (UnexpectedResponse ''error'' JNone))
        ((init_client ())\<lparr>subscriptions := {''x'', ''y''}\<rparr>)
     = (Inl (UnexpectedResponse ''error'' JNone),
        (init_client ())\<lparr>subscriptions := {''x'', ''y''}, sent := [subscribe_call ''x'']\<rparr>)"
  by (auto simp add: resubscribe_def subscribe_def request_def init_client_def subscribe_call_def)

text \<open>
  Claim C5, amended. On the connect signal the subscribe requests go out one after the other
  for the accounts of the snapshot, in the order in which the set's iteration yields them.
  When every request is answered or fails with the \<^verbatim>\<open>UnexpectedError\<close> that subscribe
  catches, the handler returns normally, the requests issued are exactly one for every
  tracked account, in that order, and the events dispatched are the ones of the failed
  subscribes, in that order. When the request with index \<open>k\<close> is the first to raise another
  error, the handler raises that error and the requests issued are those with indices up to
  and including \<open>k\<close>. The subscription set is the same afterwards, and an empty set gives no
  request.
\<close>

theorem resubscribe_in_iteration_order:
  assumes "set (order (subscriptions c)) = subscriptions c"
    and "distinct (order (subscriptions c))"
  shows "((\<forall>i<length (order (subscriptions c)). \<forall>e.
             d (sent c @ map subscribe_call (take i (order (subscriptions c))))
               (subscribe_call (order (subscriptions c) ! i)) = Inl e
             \<longrightarrow> (\<exists>m. e = UnexpectedError m))
          \<longrightarrow> fst (resubscribe order d c) = Inr ()
              \<and> sent (snd (resubscribe order d c)) =
                  sent c @ map subscribe_call (order (subscriptions c))
              \<and> dispatched (snd (resubscribe order d c)) =
                  dispatched c @
                  concat (map (\<lambda>i.
                     case d (sent c @ map subscribe_call (take i (order (subscriptions c))))
                            (subscribe_call (order (subscriptions c) ! i)) of
                       Inl (UnexpectedError m) \<Rightarrow>
                         [subscribe_failed_event (order (subscriptions c) ! i) m]
                     | _ \<Rightarrow> [])
                    [0..<length (order (subscriptions c))]))
       \<and> (k < length (order (subscriptions c))
           \<and> (\<forall>i<k. \<forall>e.
                 d (sent c @ map subscribe_call (take i (order (subscriptions c))))
                   (subscribe_call (order (subscriptions c) ! i)) = Inl e
                 \<longrightarrow> (\<exists>m. e = UnexpectedError m))
           \<and> d (sent c @ map subscribe_call (take k (order (subscriptions c))))
                 (subscribe_call (order (subscriptions c) ! k)) = Inl x
           \<and> (\<forall>m. x \<noteq> UnexpectedError m)
          \<longrightarrow> fst (resubscribe order d c) = Inl x
              \<and> sent (snd (resubscribe order d c)) =
                  sent c @ map subscribe_call (take (Suc k) (order (subscriptions c))))
       \<and> subscriptions (snd (resubscribe order d c)) = subscriptions c"
proof -
  let ?xs = "order (subscriptions c)"
  have loop: "resubscribe order d c = resubscribe_loop d c ?xs"
  proof (cases "subscriptions c = {}")
    case True
    with assms(1) have "?xs = []" by simp
    with True show ?thesis by (simp add: resubscribe_def)
  next
    case False
    then show ?thesis by (simp add: resubscribe_def)
  qed
  have a: "(\<forall>i<length ?xs. \<forall>e.
             d (sent c @ map subscribe_call (take i ?xs)) (subscribe_call (?xs ! i)) = Inl e
             \<longrightarrow> (\<exists>m. e = UnexpectedError m))
          \<longrightarrow> fst (resubscribe order d c) = Inr ()
              \<and> sent (snd (resubscribe order d c)) = sent c @ map subscribe_call ?xs
              \<and> dispatched (snd (resubscribe order d c)) =
                  dispatched c @
                  concat (map (\<lambda>i.
                     case d (sent c @ map subscribe_call (take i ?xs))
                            (subscribe_call (?xs ! i)) of
                       Inl (UnexpectedError m) \<Rightarrow> [subscribe_failed_event (?xs ! i) m]
                     | _ \<Rightarrow> [])
                    [0..<length ?xs])"
  proof
    assume h: "\<forall>i<length ?xs. \<forall>e.
             d (sent c @ map subscribe_call (take i ?xs)) (subscribe_call (?xs ! i)) = Inl e
             \<longrightarrow> (\<exists>m. e = UnexpectedError m)"
    have r: "fst (resubscribe_loop d c ?xs) = Inr ()
       \<and> sent (snd (resubscribe_loop d c ?xs)) = sent c @ map subscribe_call ?xs"
      using h by (rule resubscribe_loop_all_caught)
    then have "fst (resubscribe_loop d c ?xs) = Inr ()" ..
    then have "dispatched (snd (resubscribe_loop d c ?xs)) =
           dispatched c @
             concat (map (\<lambda>i. case d (sent c @ map subscribe_call (take i ?xs))
                                       (subscribe_call (?xs ! i)) of
                                 Inl (UnexpectedError m) \<Rightarrow> [subscribe_failed_event (?xs ! i) m]
                               | _ \<Rightarrow> [])
                       [0..<length ?xs])"
      by (rule resubscribe_loop_dispatched)
    with r show "fst (resubscribe order d c) = Inr ()
              \<and> sent (snd (resubscribe order d c)) = sent c @ map subscribe_call ?xs
              \<and> dispatched (snd (resubscribe order d c)) =
                  dispatched c @
                  concat (map (\<lambda>i.
                     case d (sent c @ map subscribe_call (take i ?xs))
                            (subscribe_call (?xs ! i)) of
                       Inl (UnexpectedError m) \<Rightarrow> [subscribe_failed_event (?xs ! i) m]
                     | _ \<Rightarrow> [])
                    [0..<length ?xs])"
      unfolding loop by blast
  qed
  have b: "k < length ?xs
           \<and> (\<forall>i<k. \<forall>e.
                 d (sent c @ map subscribe_call (take i ?xs)) (subscribe_call (?xs ! i)) = Inl e
                 \<longrightarrow> (\<exists>m. e = UnexpectedError m))
           \<and> d (sent c @ map subscribe_call (take k ?xs)) (subscribe_call (?xs ! k)) = Inl x
           \<and> (\<forall>m. x \<noteq> UnexpectedError m)
          \<longrightarrow> fst (resubscribe order d c) = Inl x
              \<and> sent (snd (resubscribe order d c)) =
                  sent c @ map subscribe_call (take (Suc k) ?xs)"
    unfolding loop using resubscribe_loop_first_uncaught [of k ?xs d c x] by blast
  have s: "subscriptions (snd (resubscribe order d c)) = subscriptions c"
    unfolding loop using assms(1) by (intro resubscribe_loop_subscriptions) simp
  from a b s show ?thesis by (intro conjI)
qed

theorem resubscribe_in_iteration_order_witness:
  "resubscribe (\<lambda>_. [''y'', ''x''])
       (\<lambda>calls call. if call = subscribe_call ''y'' then Inl (UnexpectedError ''down'')
                      else Inr JNone)
       ((init_client ())\<lparr>subscriptions := {''x'', ''y''}\<rparr>)
     = (Inr (),
        (init_client ())\<lparr>subscriptions := {''x'', ''y''},
                          sent := [subscribe_call ''y'', subscribe_call ''x''],
                          dispatched := [subscribe_failed_event ''y'' ''down'']\<rparr>)
   \<and> fst (resubscribe (\<lambda>_. [''y'', ''x''])
       (\<lambda>calls call. if call = subscribe_call ''y'' then Inl (OtherError ''closed'')
                      else Inr JNone)
       ((init_client ())\<lparr>subscriptions := {''x'', ''y''}\<rparr>)) = Inl (OtherError ''closed'')
   \<and> sent (snd (resubscribe (\<lambda>_. [''y'', ''x''])
       (\<lambda>calls call. if call = subscribe_call ''y'' then Inl (OtherError ''closed'')
                      else Inr JNone)
       ((init_client ())\<lparr>subscriptions := {''x'', ''y''}\<rparr>))) = [subscribe_call ''y'']"
proof -
  let ?c = "(init_client ())\<lparr>subscriptions := {''x'', ''y''}\<rparr> :: unit client"
  let ?order = "(\<lambda>_. [''y'', ''x'']) :: string set \<Rightarrow> string list"
  let ?d1 = "\<lambda>(calls :: rpc_call list) call.
       if call = subscribe_call ''y'' then Inl (UnexpectedError ''down'') else Inr JNone"
  let ?d2 = "\<lambda>(calls :: rpc_call list) call.
       if call = subscribe_call ''y'' then Inl (OtherError ''closed'') else Inr JNone"
  have v1: "set (?order (subscriptions ?c)) = subscriptions ?c"
    and v2: "distinct (?order (subscriptions ?c))"
    by (auto simp add: init_client_def)
  note w1 = resubscribe_in_iteration_order [OF v1 v2, where d = ?d1, THEN conjunct1]
  note w2 = resubscribe_in_iteration_order [OF v1 v2, where d = ?d2 and k = 0
              and x = "OtherError ''closed''", THEN conjunct2, THEN conjunct1]
  note w3 = resubscribe_in_iteration_order [OF v1 v2, where d = ?d1,
              THEN conjunct2, THEN conjunct2]
  have caught: "\<forall>i<length (?order (subscriptions ?c)). \<forall>e.
      ?d1 (sent ?c @ map subscribe_call (take i (?order (subscriptions ?c))))
          (subscribe_call (?order (subscriptions ?c) ! i)) = Inl e
        \<longrightarrow> (\<exists>m. e = UnexpectedError m)"
    by (auto split: if_splits)
  from w1 caught have r1: "fst (resubscribe ?order ?d1 ?c) = Inr ()"
    and r2: "sent (snd (resubscribe ?order ?d1 ?c)) =
               sent ?c @ map subscribe_call (?order (subscriptions ?c))"
    by blast+
  have r3: "subscriptions (snd (resubscribe ?order ?d1 ?c)) = subscriptions ?c"
    by (rule w3)
  have first: "resubscribe ?order ?d1 ?c
     = (Inr (),
        (init_client ())\<lparr>subscriptions := {''x'', ''y''},
                          sent := [subscribe_call ''y'', subscribe_call ''x''],
                          dispatched := [subscribe_failed_event ''y'' ''down'']\<rparr>)"
    using r1 r2 r3
    by (auto simp add: resubscribe_def subscribe_def request_def init_client_def
          subscribe_call_def run_event_handler_def subscribe_failed_event_def)
  have "0 < length (?order (subscriptions ?c))
        \<and> (\<forall>i<0. \<forall>e.
             ?d2 (sent ?c @ map subscribe_call (take i (?order (subscriptions ?c))))
                 (subscribe_call (?order (subscriptions ?c) ! i)) = Inl e
             \<longrightarrow> (\<exists>m. e = UnexpectedError m))
        \<and> ?d2 (sent ?c @ map subscribe_call (take 0 (?order (subscriptions ?c))))
               (subscribe_call (?order (subscriptions ?c) ! 0)) = Inl (OtherError ''closed'')
        \<and> (\<forall>m. OtherError ''closed'' \<noteq> UnexpectedError m)"
    by simp
  with w2 have "fst (resubscribe ?order ?d2 ?c) = Inl (OtherError ''closed'')
     \<and> sent (snd (resubscribe ?order ?d2 ?c)) =
         sent ?c @ map subscribe_call (take (Suc 0) (?order (subscriptions ?c)))"
    by blast
  then have second: "fst (resubscribe ?order ?d2 ?c) = Inl (OtherError ''closed'')"
    and third: "sent (snd (resubscribe ?order ?d2 ?c)) = [subscribe_call ''y'']"
    by (simp_all add: init_client_def)
  from first second third show ?thesis by (intro conjI)
qed

text \<open>
  Claim C6. On the disconnect signal one event with state \<open>SOCKET_DISCONNECTED\<close> and the
  cause \<^verbatim>\<open>Disconnected from signald\<close> is dispatched for every account of the subscription
  set, and for no other; no request is issued and the subscription set is the same afterwards.
\<close>

theorem on_disconnect_one_event_per_account:
  assumes "set (order (subscriptions c)) = subscriptions c"
    and "distinct (order (subscriptions c))"
  shows "subscriptions (on_disconnect order c) = subscriptions c
       \<and> sent (on_disconnect order c) = sent c
       \<and> (\<exists>us. distinct us \<and> set us = subscriptions c
             \<and> dispatched (on_disconnect order c) =
                 dispatched c @
                   map (\<lambda>a. StateChangeEvent
                               \<lparr>state = SOCKET_DISCONNECTED, account = a,
                                exception = Some ''Disconnected from signald''\<rparr>) us)"
proof (cases "subscriptions c = {}")
  case True
  then show ?thesis by (simp add: on_disconnect_def)
next
  case False
  have "dispatched (on_disconnect order c) =
          dispatched c @ map disconnect_event (order (subscriptions c))"
    using False fold_disconnect [of "order (subscriptions c)" c] by (simp add: on_disconnect_def)
  moreover have "disconnect_event =
     (\<lambda>a. StateChangeEvent \<lparr>state = SOCKET_DISCONNECTED, account = a,
                             exception = Some ''Disconnected from signald''\<rparr>)"
    by (rule ext) (simp add: disconnect_event_def)
  ultimately show ?thesis
    using assms False fold_disconnect [of "order (subscriptions c)" c]
    by (auto simp add: on_disconnect_def)
qed

theorem on_disconnect_one_event_per_account_witness:
  "subscriptions (on_disconnect (\<lambda>_. [''x'', ''y''])
       ((init_client ())\<lparr>subscriptions := {''x'', ''y''}\<rparr>)) = {''x'', ''y''}
   \<and> dispatched (on_disconnect (\<lambda>_. [''x'', ''y''])
       ((init_client ())\<lparr>subscriptions := {''x'', ''y''}\<rparr>)) =
       [StateChangeEvent \<lparr>state = SOCKET_DISCONNECTED, account = ''x'',
                          exception = Some ''Disconnected from signald''\<rparr>,
        StateChangeEvent \<lparr>state = SOCKET_DISCONNECTED, account = ''y'',
                          exception = Some ''Disconnected from signald''\<rparr>]"
  using on_disconnect_one_event_per_account
          [of "\<lambda>_. [''x'', ''y'']" "(init_client ())\<lparr>subscriptions := {''x'', ''y''}\<rparr>"]
  by (auto simp add: on_disconnect_def init_client_def run_event_handler_def
        disconnect_event_def)

section \<open>Properties of the commands\<close>

text \<open>
  Claim C7. When the request of \<^verbatim>\<open>get_profile\<close> raises \<^verbatim>\<open>UnexpectedResponse\<close> with the tag
  \<^verbatim>\<open>profile_not_available\<close> the call returns \<^verbatim>\<open>None\<close>; every other error of the request, an
  \<^verbatim>\<open>UnexpectedResponse\<close> with another tag and the transport's \<^verbatim>\<open>UnexpectedError\<close> among
  them, reaches the caller as it is.
\<close>

theorem get_profile_not_available:
  "(d (sent c) (get_profile_call u addr uc) = Inl (UnexpectedResponse ''profile_not_available'' data)
      \<longrightarrow> fst (get_profile deserialize d c u addr uc) = Inr None)
   \<and> (d (sent c) (get_profile_call u addr uc) = Inl x
        \<and> (\<forall>data'. x \<noteq> UnexpectedResponse ''profile_not_available'' data')
      \<longrightarrow> fst (get_profile deserialize d c u addr uc) = Inl x)"
  by (cases x) (auto simp add: get_profile_def request_def)

theorem get_profile_not_available_witness:
  "fst (get_profile Inr (\<lambda>_ _. Inl (UnexpectedResponse ''profile_not_available'' JNone))
          (init_client ()) ''+1'' (JDict [(''uuid'', JStr ''u'')]) False) = Inr None
   \<and> fst (get_profile Inr (\<lambda>_ _. Inl (UnexpectedResponse ''rate_limit'' JNone))
          (init_client ()) ''+1'' (JDict [(''uuid'', JStr ''u'')]) False)
       = Inl (UnexpectedResponse ''rate_limit'' JNone)
   \<and> fst (get_profile Inr (\<lambda>_ _. Inl (UnexpectedError ''boom''))
          (init_client ()) ''+1'' (JDict [(''uuid'', JStr ''u'')]) False)
       = Inl (UnexpectedError ''boom'')"
  using get_profile_not_available
          [where d = "\<lambda>_ _. Inl (UnexpectedResponse ''profile_not_available'' JNone)"
             and c = "init_client ()" and u = "''+1''" and addr = "JDict [(''uuid'', JStr ''u'')]"
             and uc = False and data = JNone and deserialize = Inr
             and x = "UnexpectedResponse ''rate_limit'' JNone"]
        get_profile_not_available
          [where d = "\<lambda>_ _. Inl (UnexpectedResponse ''rate_limit'' JNone)"
             and c = "init_client ()" and u = "''+1''" and addr = "JDict [(''uuid'', JStr ''u'')]"
             and uc = False and data = JNone and deserialize = Inr
             and x = "UnexpectedResponse ''rate_limit'' JNone"]
        get_profile_not_available
          [where d = "\<lambda>_ _. Inl (UnexpectedError ''boom'')"
             and c = "init_client ()" and u = "''+1''" and addr = "JDict [(''uuid'', JStr ''u'')]"
             and uc = False and data = JNone and deserialize = Inr
             and x = "UnexpectedError ''boom''"]
  by simp

text \<open>
  Claim C8, as stated, fails on the empty string, which the code treats like \<^verbatim>\<open>None\<close>: with
  an empty safety number and QR code data both arguments are supplied and the request is
  issued all the same; with an empty safety number alone exactly one argument is supplied
  and the call raises.
\<close>

theorem trust_supplied_counterexample:
  "trust (\<lambda>_ _. Inr JNone) (init_client ()) ''+1'' (JDict []) ''TRUSTED_VERIFIED''
     (Some '''') (Some ''qr'')
     = (Inr (), (init_client ())\<lparr>sent :=
          [trust_call ''+1'' (JDict []) ''TRUSTED_VERIFIED'' [(''qr_code_data'', JStr ''qr'')]]\<rparr>)
   \<and> trust (\<lambda>_ _. Inr JNone) (init_client ()) ''+1'' (JDict []) ''TRUSTED_VERIFIED''
     (Some '''') None
     = (Inl (ValueError ''safety_number or qr_code_data is required''), init_client ())"
  by (simp add: trust_def trust_request_def request_def init_client_def str_arg_def)

text \<open>
  Claim C8, amended. Count an argument as supplied when it is neither \<^verbatim>\<open>None\<close> nor the empty
  string. When both or neither are supplied, trust raises \<^verbatim>\<open>ValueError\<close> and the client,
  the calls handed to the transport included, is as before; when exactly one is supplied,
  the trust request is issued with that argument.
\<close>

theorem trust_exactly_one_nonempty:
  "((truthy_str sn \<and> truthy_str qr) \<or> (\<not> truthy_str sn \<and> \<not> truthy_str qr)
      \<longrightarrow> (\<exists>m. trust d c u r lvl sn qr = (Inl (ValueError m), c)))
   \<and> (truthy_str sn \<and> \<not> truthy_str qr
      \<longrightarrow> sent (snd (trust d c u r lvl sn qr)) =
            sent c @ [trust_call u r lvl [(''safety_number'', str_arg sn)]])
   \<and> (\<not> truthy_str sn \<and> truthy_str qr
      \<longrightarrow> sent (snd (trust d c u r lvl sn qr)) =
            sent c @ [trust_call u r lvl [(''qr_code_data'', str_arg qr)]])"
  by (auto simp add: trust_def trust_request_def request_def split: sum.splits)

theorem trust_exactly_one_nonempty_witness:
  "(\<exists>m. trust (\<lambda>_ _. Inr JNone) (init_client ()) ''+1'' (JDict []) ''TRUSTED_VERIFIED''
           (Some ''12345'') (Some ''qr'') = (Inl (ValueError m), init_client ()))
   \<and> (\<exists>m. trust (\<lambda>_ _. Inr JNone) (init_client ()) ''+1'' (JDict []) ''TRUSTED_VERIFIED''
           None None = (Inl (ValueError m), init_client ()))
   \<and> sent (snd (trust (\<lambda>_ _. Inr JNone) (init_client ()) ''+1'' (JDict []) ''TRUSTED_VERIFIED''
           (Some ''12345'') None))
       = [trust_call ''+1'' (JDict []) ''TRUSTED_VERIFIED'' [(''safety_number'', JStr ''12345'')]]
   \<and> sent (snd (trust (\<lambda>_ _. Inr JNone) (init_client ()) ''+1'' (JDict []) ''TRUSTED_VERIFIED''
           None (Some ''qr'')))
       = [trust_call ''+1'' (JDict []) ''TRUSTED_VERIFIED'' [(''qr_code_data'', JStr ''qr'')]]"
  using trust_exactly_one_nonempty
          [of "Some ''12345''" "Some ''qr''" "\<lambda>_ _. Inr JNone" "init_client ()" "''+1''"
              "JDict []" "''TRUSTED_VERIFIED''"]
        trust_exactly_one_nonempty
          [of None None "\<lambda>_ _. Inr JNone" "init_client ()" "''+1''"
              "JDict []" "''TRUSTED_VERIFIED''"]
        trust_exactly_one_nonempty
          [of "Some ''12345''" None "\<lambda>_ _. Inr JNone" "init_client ()" "''+1''"
              "JDict []" "''TRUSTED_VERIFIED''"]
        trust_exactly_one_nonempty
          [of None "Some ''qr''" "\<lambda>_ _. Inr JNone" "init_client ()" "''+1''"
              "JDict []" "''TRUSTED_VERIFIED''"]
  by (simp add: init_client_def str_arg_def)

section \<open>Properties of the store of disappearing messages\<close>

lemma find_None_no_match: "find P xs = None \<longleftrightarrow> \<not> (\<exists>x\<in>set xs. P x)"
  by (induction xs) auto

text \<open>
  Claim C9. \<^verbatim>\<open>get\<close> always returns, never raises: it returns \<^verbatim>\<open>None\<close> when the read fails
  with any error and when no stored row has the given room and message identifiers, and it
  returns a stored row with these identifiers when the read succeeds and there is one.
\<close>

theorem get_absent_or_error:
  "(\<exists>r. get db room event = Inr r)
   \<and> (failure db \<noteq> None \<longrightarrow> get db room event = Inr None)
   \<and> (\<not> (\<exists>r \<in> set (disappearing_message db). room_id r = room \<and> mxid r = event)
        \<longrightarrow> get db room event = Inr None)
   \<and> (failure db = None
        \<and> (\<exists>r \<in> set (disappearing_message db). room_id r = room \<and> mxid r = event)
        \<longrightarrow> (\<exists>m \<in> set (disappearing_message db).
               room_id m = room \<and> mxid m = event \<and> get db room event = Inr (Some m)))"
proof -
  let ?P = "\<lambda>r. room_id r = room \<and> mxid r = event"
  have a: "\<exists>r. get db room event = Inr r"
    by (simp add: get_def fetchrow_def split: option.splits sum.splits)
  have b: "failure db \<noteq> None \<longrightarrow> get db room event = Inr None"
    by (auto simp add: get_def fetchrow_def)
  have c: "\<not> (\<exists>r \<in> set (disappearing_message db). ?P r) \<longrightarrow> get db room event = Inr None"
  proof
    assume "\<not> (\<exists>r \<in> set (disappearing_message db). ?P r)"
    then have "find ?P (disappearing_message db) = None" by (simp add: find_None_no_match)
    then show "get db room event = Inr None"
      by (simp add: get_def fetchrow_def split: option.splits)
  qed
  have d: "failure db = None \<and> (\<exists>r \<in> set (disappearing_message db). ?P r)
        \<longrightarrow> (\<exists>m \<in> set (disappearing_message db). ?P m \<and> get db room event = Inr (Some m))"
  proof
    assume h: "failure db = None \<and> (\<exists>r \<in> set (disappearing_message db). ?P r)"
    then obtain m where m: "find ?P (disappearing_message db) = Some m"
      using find_None_no_match [of ?P "disappearing_message db"] by (cases "find ?P (disappearing_message db)") auto
    then have "m \<in> set (disappearing_message db)" "?P m"
      by (auto simp add: find_Some_iff)
    moreover have "get db room event = Inr (Some m)"
      using h m by (simp add: get_def fetchrow_def)
    ultimately show "\<exists>m \<in> set (disappearing_message db). ?P m \<and> get db room event = Inr (Some m)"
      by blast
  qed
  from a b c d show ?thesis by blast
qed

theorem get_absent_or_error_witness:
  "get \<lparr>disappearing_message =
          [\<lparr>room_id = ''!r'', mxid = ''$e'', expiration_seconds = 60, expiration_ts = None\<rparr>],
        failure = Some (OtherError ''connection lost'')\<rparr> ''!r'' ''$e'' = Inr None
   \<and> get \<lparr>disappearing_message =
          [\<lparr>room_id = ''!r'', mxid = ''$e'', expiration_seconds = 60, expiration_ts = None\<rparr>],
        failure = None\<rparr> ''!r'' ''$other'' = Inr None
   \<and> get \<lparr>disappearing_message =
          [\<lparr>room_id = ''!r'', mxid = ''$e'', expiration_seconds = 60, expiration_ts = None\<rparr>],
        failure = None\<rparr> ''!r'' ''$e''
       = Inr (Some \<lparr>room_id = ''!r'', mxid = ''$e'', expiration_seconds = 60,
                     expiration_ts = None\<rparr>)"
  using get_absent_or_error
          [of "\<lparr>disappearing_message =
          [\<lparr>room_id = ''!r'', mxid = ''$e'', expiration_seconds = 60, expiration_ts = None\<rparr>],
        failure = Some (OtherError ''connection lost'')\<rparr>" "''!r''" "''$e''"]
        get_absent_or_error
          [of "\<lparr>disappearing_message =
          [\<lparr>room_id = ''!r'', mxid = ''$e'', expiration_seconds = 60, expiration_ts = None\<rparr>],
        failure = None\<rparr>" "''!r''" "''$other''"]
        get_absent_or_error
          [of "\<lparr>disappearing_message =
          [\<lparr>room_id = ''!r'', mxid = ''$e'', expiration_seconds = 60, expiration_ts = None\<rparr>],
        failure = None\<rparr>" "''!r''" "''$e''"]
  by simp


section \<open>Properties of send\<close>

lemma proof_required_step:
  assumes "proof_required repr d c acc number prf = (Inr acc', c')"
  shows "\<exists>es. es \<noteq> [] \<and> errors acc' = errors acc @ es
           \<and> unregistered_failures acc' = unregistered_failures acc
           \<and> successful_send_count acc' = successful_send_count acc"
  using assms
  by (auto simp add: proof_required_def Let_def request_def
        split: json.splits sum.splits bool.splits prod.splits if_splits)

lemma classify_result_step:
  assumes "classify_result repr d c acc r = (Inr acc', c')"
  shows "(\<exists>m. unregistered_failures acc' = unregistered_failures acc @ [m]
            \<and> errors acc' = errors acc
            \<and> successful_send_count acc' = successful_send_count acc)
       \<or> (\<exists>es. es \<noteq> [] \<and> errors acc' = errors acc @ es
            \<and> unregistered_failures acc' = unregistered_failures acc
            \<and> successful_send_count acc' = successful_send_count acc)
       \<or> (successful_send_count acc' = Suc (successful_send_count acc)
            \<and> errors acc' = errors acc
            \<and> unregistered_failures acc' = unregistered_failures acc)"
proof (cases r)
  case (JDict res)
  show ?thesis
  proof (cases "dict_get res ''addres'' (JDict [])")
    case (JDict address)
    note addr = this
    consider (net) "truthy (dict_get res ''networkFailure'' (JBool False))"
      | (unreg) "\<not> truthy (dict_get res ''networkFailure'' (JBool False))"
          and "truthy (dict_get res ''unregisteredFailure'' (JBool False))"
      | (ident) "\<not> truthy (dict_get res ''networkFailure'' (JBool False))"
          and "\<not> truthy (dict_get res ''unregisteredFailure'' (JBool False))"
          and "truthy (dict_get res ''identityFailure'' (JStr []))"
      | (preq) "\<not> truthy (dict_get res ''networkFailure'' (JBool False))"
          and "\<not> truthy (dict_get res ''unregisteredFailure'' (JBool False))"
          and "\<not> truthy (dict_get res ''identityFailure'' (JStr []))"
          and "truthy (dict_get res ''proof_required_failure'' JNone)"
      | (succ) "\<not> truthy (dict_get res ''networkFailure'' (JBool False))"
          and "\<not> truthy (dict_get res ''unregisteredFailure'' (JBool False))"
          and "\<not> truthy (dict_get res ''identityFailure'' (JStr []))"
          and "\<not> truthy (dict_get res ''proof_required_failure'' JNone)"
      by blast
    then show ?thesis
    proof cases
      case net
      then show ?thesis using assms \<open>r = JDict res\<close> addr
        by (auto simp add: classify_result_def Let_def)
    next
      case unreg
      then show ?thesis using assms \<open>r = JDict res\<close> addr
        by (auto simp add: classify_result_def Let_def)
    next
      case ident
      then show ?thesis using assms \<open>r = JDict res\<close> addr
        by (auto simp add: classify_result_def Let_def)
    next
      case preq
      then have "proof_required repr d c acc
          (py_or (dict_get address ''number'' JNone) (dict_get address ''uuid'' JNone))
          (dict_get res ''proof_required_failure'' JNone) = (Inr acc', c')"
        using assms \<open>r = JDict res\<close> addr by (simp add: classify_result_def Let_def)
      from proof_required_step [OF this] show ?thesis by blast
    next
      case succ
      then show ?thesis using assms \<open>r = JDict res\<close> addr
        by (auto simp add: classify_result_def Let_def)
    qed
  qed (use assms \<open>r = JDict res\<close> in \<open>simp_all add: classify_result_def\<close>)
qed (use assms in \<open>simp_all add: classify_result_def\<close>)

lemma classify_results_invariant:
  assumes "classify_results repr d c acc rs = (Inr acc', c')"
  shows "length (unregistered_failures acc') \<le> length (unregistered_failures acc) + length rs
       \<and> (length (unregistered_failures acc') = length (unregistered_failures acc) + length rs
            \<longrightarrow> errors acc' = errors acc
                \<and> successful_send_count acc' = successful_send_count acc)
       \<and> (\<exists>es. errors acc' = errors acc @ es)"
  using assms
proof (induction rs arbitrary: c acc)
  case Nil
  then show ?case by simp
next
  case (Cons r rs)
  obtain x c1 where s: "classify_result repr d c acc r = (x, c1)"
    by (cases "classify_result repr d c acc r")
  with Cons.prems obtain acc1 where x: "x = Inr acc1" by (cases x) auto
  with s Cons.prems have rest: "classify_results repr d c1 acc1 rs = (Inr acc', c')" by simp
  note ih = Cons.IH [OF rest]
  from classify_result_step [OF s [unfolded x]] show ?case
  proof (elim disjE exE conjE)
    fix m
    assume "unregistered_failures acc1 = unregistered_failures acc @ [m]"
      "errors acc1 = errors acc" "successful_send_count acc1 = successful_send_count acc"
    then show ?thesis using ih by auto
  next
    fix es :: "string list"
    assume "es \<noteq> []" "errors acc1 = errors acc @ es"
      "unregistered_failures acc1 = unregistered_failures acc"
      "successful_send_count acc1 = successful_send_count acc"
    then show ?thesis using ih by auto
  next
    assume "successful_send_count acc1 = Suc (successful_send_count acc)"
      "errors acc1 = errors acc" "unregistered_failures acc1 = unregistered_failures acc"
    then show ?thesis using ih by auto
  qed
qed

lemma send_Inr:
  assumes "d (sent c) (send_call u rcp body q atts ms ts) = Inr resp"
  shows "send repr d c u rcp body q atts ms ts =
           send_response repr d (c\<lparr>sent := sent c @ [send_call u rcp body q atts ms ts]\<rparr>) resp"
  using assms by (simp add: send_def request_def)


text \<open>
  Claim C1. Take a send whose request is answered with a response that carries a list of
  results, and whose loop over the results runs to its end with the lists \<open>errors\<close> and
  \<open>unregistered_failures\<close>. The final error list is \<open>errors\<close> followed by the unregistered
  failures when there are as many of these as results, and \<open>errors\<close> alone otherwise; send
  raises the exception whose text is the final list joined by newlines when that list is
  not empty, and returns normally when it is empty. When the unregistered failures are as
  many as the results there is no other error and no successful delivery.
\<close>

theorem send_raises_iff_final_errors:
  assumes "d (sent c) (send_call u rcp body q atts ms ts) = Inr resp"
    and "py_get resp ''results'' (JList []) = Inr (JList rs)"
    and "classify_results repr d (c\<lparr>sent := sent c @ [send_call u rcp body q atts ms ts]\<rparr>)
           send_acc0 rs = (Inr acc, c')"
  shows "(let final = (if length (unregistered_failures acc) = length rs
                       then errors acc @ unregistered_failures acc else errors acc)
          in fst (send repr d c u rcp body q atts ms ts) =
               (if final \<noteq> [] then Inl (Exception (join_lines final)) else Inr ()))
       \<and> (length (unregistered_failures acc) = length rs
            \<longrightarrow> errors acc = [] \<and> successful_send_count acc = 0)"
proof -
  have "fst (send repr d c u rcp body q atts ms ts) = send_outcome acc (length rs)"
    using assms by (simp add: send_Inr send_response_def)
  moreover have "length (unregistered_failures acc) = length rs
            \<longrightarrow> errors acc = [] \<and> successful_send_count acc = 0"
    using classify_results_invariant [OF assms(3)] by (simp add: send_acc0_def)
  ultimately show ?thesis
    by (simp add: send_outcome_def final_errors_def Let_def)
qed

theorem send_raises_iff_final_errors_witness:
  "fst (send (\<lambda>_. ''?'')
          (\<lambda>_ _. Inr (JDict [(''results'', JList
             [JDict [(''address'', JDict [(''number'', JStr ''+1'')])],
              JDict [(''address'', JDict [(''number'', JStr ''+2'')]),
                     (''unregisteredFailure'', JBool True)],
              JDict [(''address'', JDict [(''number'', JStr ''+3'')]),
                     (''unregisteredFailure'', JBool True)]])]))
          (init_client ()) ''+0'' (GroupID ''g'') ''hi'' None None None None) = Inr ()
   \<and> fst (send (\<lambda>_. ''?'')
          (\<lambda>_ _. Inr (JDict [(''results'', JList
             [JDict [(''address'', JDict [(''number'', JStr ''+2'')]),
                     (''unregisteredFailure'', JBool True)],
              JDict [(''address'', JDict [(''number'', JStr ''+3'')]),
                     (''unregisteredFailure'', JBool True)]])]))
          (init_client ()) ''+0'' (GroupID ''g'') ''hi'' None None None None)
      = Inl (Exception (unregistered_failure_msg ''None'' @ [CHR 0x0A]
                          @ unregistered_failure_msg ''None''))"
  using send_raises_iff_final_errors
     [where d = "\<lambda>_ _. Inr (JDict [(''results'', JList
             [JDict [(''address'', JDict [(''number'', JStr ''+1'')])],
              JDict [(''address'', JDict [(''number'', JStr ''+2'')]),
                     (''unregisteredFailure'', JBool True)],
              JDict [(''address'', JDict [(''number'', JStr ''+3'')]),
                     (''unregisteredFailure'', JBool True)]])])"
        and c = "init_client ()" and u = "''+0''" and rcp = "GroupID ''g''" and body = "''hi''"
        and q = None and atts = None and ms = None and ts = None and repr = "\<lambda>_. ''?''"
        and resp = "JDict [(''results'', JList
             [JDict [(''address'', JDict [(''number'', JStr ''+1'')])],
              JDict [(''address'', JDict [(''number'', JStr ''+2'')]),
                     (''unregisteredFailure'', JBool True)],
              JDict [(''address'', JDict [(''number'', JStr ''+3'')]),
                     (''unregisteredFailure'', JBool True)]])]"
        and rs = "[JDict [(''address'', JDict [(''number'', JStr ''+1'')])],
              JDict [(''address'', JDict [(''number'', JStr ''+2'')]),
                     (''unregisteredFailure'', JBool True)],
              JDict [(''address'', JDict [(''number'', JStr ''+3'')]),
                     (''unregisteredFailure'', JBool True)]]"
        and acc = "\<lparr>errors = [], unregistered_failures =
                     [unregistered_failure_msg ''None'', unregistered_failure_msg ''None''],
                   successful_send_count = 1\<rparr>"
        and c' = "(init_client ())\<lparr>sent := [send_call ''+0'' (GroupID ''g'') ''hi'' None None None None]\<rparr>"]
    send_raises_iff_final_errors
     [where d = "\<lambda>_ _. Inr (JDict [(''results'', JList
             [JDict [(''address'', JDict [(''number'', JStr ''+2'')]),
                     (''unregisteredFailure'', JBool True)],
              JDict [(''address'', JDict [(''number'', JStr ''+3'')]),
                     (''unregisteredFailure'', JBool True)]])])"
        and c = "init_client ()" and u = "''+0''" and rcp = "GroupID ''g''" and body = "''hi''"
        and q = None and atts = None and ms = None and ts = None and repr = "\<lambda>_. ''?''"
        and resp = "JDict [(''results'', JList
             [JDict [(''address'', JDict [(''number'', JStr ''+2'')]),
                     (''unregisteredFailure'', JBool True)],
              JDict [(''address'', JDict [(''number'', JStr ''+3'')]),
                     (''unregisteredFailure'', JBool True)]])]"
        and rs = "[JDict [(''address'', JDict [(''number'', JStr ''+2'')]),
                     (''unregisteredFailure'', JBool True)],
              JDict [(''address'', JDict [(''number'', JStr ''+3'')]),
                     (''unregisteredFailure'', JBool True)]]"
        and acc = "\<lparr>errors = [], unregistered_failures =
                     [unregistered_failure_msg ''None'', unregistered_failure_msg ''None''],
                   successful_send_count = 0\<rparr>"
        and c' = "(init_client ())\<lparr>sent := [send_call ''+0'' (GroupID ''g'') ''hi'' None None None None]\<rparr>"]
  by (simp add: init_client_def classify_result_def dict_get_def py_or_def send_acc0_def Let_def)


subsection \<open>Proof-required failures\<close>

lemma classify_result_proof_required:
  assumes "dict_get res ''addres'' (JDict []) = JDict address"
    and "\<not> truthy (dict_get res ''networkFailure'' (JBool False))"
    and "\<not> truthy (dict_get res ''unregisteredFailure'' (JBool False))"
    and "\<not> truthy (dict_get res ''identityFailure'' (JStr []))"
    and "truthy (dict_get res ''proof_required_failure'' JNone)"
  shows "classify_result repr d c acc (JDict res) =
           proof_required repr d c acc
             (py_or (dict_get address ''number'' JNone) (dict_get address ''uuid'' JNone))
             (dict_get res ''proof_required_failure'' JNone)"
  using assms by (simp add: classify_result_def Let_def)

lemma classify_result_reaches_proof_required:
  assumes "\<not> truthy (dict_get res ''networkFailure'' (JBool False))"
    and "\<not> truthy (dict_get res ''unregisteredFailure'' (JBool False))"
    and "\<not> truthy (dict_get res ''identityFailure'' (JStr []))"
    and "truthy (dict_get res ''proof_required_failure'' JNone)"
    and "classify_result repr d c acc (JDict res) = (Inr acc1, c1)"
  shows "\<exists>es. es \<noteq> [] \<and> errors acc1 = errors acc @ es"
proof (cases "dict_get res ''addres'' (JDict [])")
  case (JDict address)
  have "classify_result repr d c acc (JDict res) =
      proof_required repr d c acc
        (py_or (dict_get address ''number'' JNone) (dict_get address ''uuid'' JNone))
        (dict_get res ''proof_required_failure'' JNone)"
    by (rule classify_result_proof_required [OF JDict assms(1-4)])
  with assms(5) have "proof_required repr d c acc
      (py_or (dict_get address ''number'' JNone) (dict_get address ''uuid'' JNone))
      (dict_get res ''proof_required_failure'' JNone) = (Inr acc1, c1)" by simp
  from proof_required_step [OF this] show ?thesis by blast
qed (use assms(5) in \<open>simp_all add: classify_result_def\<close>)

lemma classify_results_proof_required_errors:
  assumes "JDict res \<in> set rs"
    and "\<not> truthy (dict_get res ''networkFailure'' (JBool False))"
    and "\<not> truthy (dict_get res ''unregisteredFailure'' (JBool False))"
    and "\<not> truthy (dict_get res ''identityFailure'' (JStr []))"
    and "truthy (dict_get res ''proof_required_failure'' JNone)"
    and "classify_results repr d c acc rs = (Inr acc', c')"
  shows "errors acc' \<noteq> []"
  using assms(1,6)
proof (induction rs arbitrary: c acc)
  case Nil
  then show ?case by simp
next
  case (Cons r rs)
  obtain x c1 where s: "classify_result repr d c acc r = (x, c1)"
    by (cases "classify_result repr d c acc r")
  with Cons.prems(2) obtain acc1 where x: "x = Inr acc1" by (cases x) auto
  with s Cons.prems(2) have rest: "classify_results repr d c1 acc1 rs = (Inr acc', c')" by simp
  show ?case
  proof (cases "r = JDict res")
    case True
    from classify_result_reaches_proof_required [OF assms(2-5) s [unfolded x True]]
    obtain es where "es \<noteq> []" "errors acc1 = errors acc @ es" by blast
    moreover from classify_results_invariant [OF rest]
    obtain es' where "errors acc' = errors acc1 @ es'" by blast
    ultimately show ?thesis by simp
  next
    case False
    with Cons.prems(1) have "JDict res \<in> set rs" by simp
    from Cons.IH [OF this rest] show ?thesis .
  qed
qed

lemma send_fails_on_proof_required:
  assumes "d (sent c) (send_call u rcp body q atts ms ts) = Inr resp"
    and "py_get resp ''results'' (JList []) = Inr (JList rs)"
    and "JDict res \<in> set rs"
    and "\<not> truthy (dict_get res ''networkFailure'' (JBool False))"
    and "\<not> truthy (dict_get res ''unregisteredFailure'' (JBool False))"
    and "\<not> truthy (dict_get res ''identityFailure'' (JStr []))"
    and "truthy (dict_get res ''proof_required_failure'' JNone)"
  shows "isl (fst (send repr d c u rcp body q atts ms ts))"
proof -
  let ?c1 = "c\<lparr>sent := sent c @ [send_call u rcp body q atts ms ts]\<rparr>"
  obtain x c' where cr: "classify_results repr d ?c1 send_acc0 rs = (x, c')"
    by (cases "classify_results repr d ?c1 send_acc0 rs")
  show ?thesis
  proof (cases x)
    case (Inl e)
    then show ?thesis using assms(1,2) cr by (simp add: send_Inr send_response_def)
  next
    case (Inr acc)
    from classify_results_proof_required_errors [OF assms(3-7) cr [unfolded Inr]]
    have "errors acc \<noteq> []" .
    then have "final_errors acc (length rs) \<noteq> []" by (simp add: final_errors_def)
    then show ?thesis using assms(1,2) cr Inr
      by (simp add: send_Inr send_response_def send_outcome_def)
  qed
qed

lemma proof_required_sent:
  assumes "py_in ''RECAPTCHA'' (dict_get prf ''options'' JNone) = Inr recaptcha"
    and "py_in ''PUSH_CHALLENGE'' (dict_get prf ''options'' JNone) = Inr push"
  shows "sent (snd (proof_required repr d c acc number (JDict prf))) =
           (if push \<and> \<not> recaptcha then sent c @ [submit_challenge_call] else sent c)"
  using assms
  by (cases recaptcha; cases push)
     (simp_all add: proof_required_def Let_def request_def split: sum.splits)

lemma proof_required_errors:
  assumes "py_in ''RECAPTCHA'' (dict_get prf ''options'' JNone) = Inr recaptcha"
    and "py_in ''PUSH_CHALLENGE'' (dict_get prf ''options'' JNone) = Inr push"
    and "fst (proof_required repr d c acc number (JDict prf)) = Inr acc'"
  shows "errors acc' =
           errors acc @ [proof_required_msg (py_str repr number)
                           (py_str repr (dict_get prf ''message'' JNone))]
             @ (if recaptcha then [''RECAPTCHA required.''] else [])"
  using assms
  by (cases recaptcha; cases push)
     (auto simp add: proof_required_def Let_def request_def split: sum.splits)

lemma proof_required_returns:
  assumes "py_in ''RECAPTCHA'' (dict_get prf ''options'' JNone) = Inr recaptcha"
    and "py_in ''PUSH_CHALLENGE'' (dict_get prf ''options'' JNone) = Inr push"
  shows "isl (fst (proof_required repr d c acc number (JDict prf))) \<longleftrightarrow>
           push \<and> \<not> recaptcha \<and> isl (d (sent c) submit_challenge_call)"
  using assms
  by (cases recaptcha; cases push)
     (auto simp add: proof_required_def Let_def request_def split: sum.splits)

text \<open>
  Claim C2, as stated, has a submit_challenge command issued whenever the offered options
  include the automatic challenge. A result that offers both \<^verbatim>\<open>RECAPTCHA\<close> and
  \<^verbatim>\<open>PUSH_CHALLENGE\<close> takes the first branch of the test of the options: the only call handed
  to the transport is the send itself, and the call fails with the proof-required message
  and \<^verbatim>\<open>RECAPTCHA required.\<close>
\<close>

theorem proof_required_both_options_counterexample:
  "JStr ''PUSH_CHALLENGE'' \<in> set [JStr ''RECAPTCHA'', JStr ''PUSH_CHALLENGE'']
   \<and> send (\<lambda>_. ''?'')
        (\<lambda>_ _. Inr (JDict [(''results'', JList
           [JDict [(''address'', JDict [(''number'', JStr ''+1'')]),
                   (''proof_required_failure'', JDict
                      [(''options'', JList [JStr ''RECAPTCHA'', JStr ''PUSH_CHALLENGE'']),
                       (''message'', JStr ''blocked''),
                       (''retry_after'', JInt 86400),
                       (''token'', JStr ''t'')])]])]))
        (init_client ()) ''+0'' (Address (JDict [(''number'', JStr ''+1'')])) ''hi''
        None None None None
     = (Inl (Exception (proof_required_msg ''None'' ''blocked'' @ [CHR 0x0A]
                          @ ''RECAPTCHA required.'')),
        (init_client ())\<lparr>sent :=
           [send_call ''+0'' (Address (JDict [(''number'', JStr ''+1'')])) ''hi''
              None None None None]\<rparr>)"
  by (simp add: send_def send_response_def request_def init_client_def classify_result_def
        proof_required_def dict_get_def py_or_def send_acc0_def send_outcome_def
        final_errors_def Let_def)

text \<open>
  Claim C2, amended. Take a result that reaches the proof-required branch (no network,
  unregistered or identity failure, and a non-empty \<^verbatim>\<open>proof_required_failure\<close> dict) and
  whose options can be searched; let \<open>recaptcha\<close> and \<open>push\<close> say whether \<^verbatim>\<open>RECAPTCHA\<close> and
  \<^verbatim>\<open>PUSH_CHALLENGE\<close> are among them. A submit_challenge command is issued exactly when
  \<^verbatim>\<open>PUSH_CHALLENGE\<close> is offered and \<^verbatim>\<open>RECAPTCHA\<close> is not; otherwise no command is issued.
  Whenever the turn of the loop completes, the proof-required message has been appended to
  the error list, followed by \<^verbatim>\<open>RECAPTCHA required.\<close> when \<^verbatim>\<open>RECAPTCHA\<close> is offered; the turn
  fails to complete only when the submitted challenge itself raises. A send whose results
  contain such a result never returns normally, whether or not the challenge was submitted.
\<close>

theorem proof_required_challenge_unless_recaptcha:
  assumes "dict_get res ''addres'' (JDict []) = JDict address"
    and "\<not> truthy (dict_get res ''networkFailure'' (JBool False))"
    and "\<not> truthy (dict_get res ''unregisteredFailure'' (JBool False))"
    and "\<not> truthy (dict_get res ''identityFailure'' (JStr []))"
    and "dict_get res ''proof_required_failure'' JNone = JDict pr"
    and "pr \<noteq> []"
    and "py_in ''RECAPTCHA'' (dict_get pr ''options'' JNone) = Inr recaptcha"
    and "py_in ''PUSH_CHALLENGE'' (dict_get pr ''options'' JNone) = Inr push"
  shows "sent (snd (classify_result repr d c acc (JDict res))) =
           (if push \<and> \<not> recaptcha then sent c @ [submit_challenge_call] else sent c)
       \<and> (\<forall>acc'. fst (classify_result repr d c acc (JDict res)) = Inr acc' \<longrightarrow>
             errors acc' =
               errors acc @
               [proof_required_msg
                  (py_str repr (py_or (dict_get address ''number'' JNone)
                                      (dict_get address ''uuid'' JNone)))
                  (py_str repr (dict_get pr ''message'' JNone))]
               @ (if recaptcha then [''RECAPTCHA required.''] else []))
       \<and> (isl (fst (classify_result repr d c acc (JDict res))) \<longleftrightarrow>
             push \<and> \<not> recaptcha \<and> isl (d (sent c) submit_challenge_call))
       \<and> (d (sent cl) (send_call u rcp body q atts ms ts) = Inr resp
            \<and> py_get resp ''results'' (JList []) = Inr (JList rs)
            \<and> JDict res \<in> set rs
          \<longrightarrow> isl (fst (send repr d cl u rcp body q atts ms ts)))"
proof -
  have t: "truthy (dict_get res ''proof_required_failure'' JNone)"
    using assms(5,6) by simp
  have eq: "classify_result repr d c acc (JDict res) =
      proof_required repr d c acc
        (py_or (dict_get address ''number'' JNone) (dict_get address ''uuid'' JNone))
        (JDict pr)"
    using classify_result_proof_required [OF assms(1-4) t, of repr d c acc] assms(5) by simp
  have a: "sent (snd (classify_result repr d c acc (JDict res))) =
           (if push \<and> \<not> recaptcha then sent c @ [submit_challenge_call] else sent c)"
    unfolding eq by (rule proof_required_sent [OF assms(7,8)])
  have b: "\<forall>acc'. fst (classify_result repr d c acc (JDict res)) = Inr acc' \<longrightarrow>
             errors acc' =
               errors acc @
               [proof_required_msg
                  (py_str repr (py_or (dict_get address ''number'' JNone)
                                      (dict_get address ''uuid'' JNone)))
                  (py_str repr (dict_get pr ''message'' JNone))]
               @ (if recaptcha then [''RECAPTCHA required.''] else [])"
    unfolding eq using proof_required_errors [OF assms(7,8)] by blast
  have c: "isl (fst (classify_result repr d c acc (JDict res))) \<longleftrightarrow>
             push \<and> \<not> recaptcha \<and> isl (d (sent c) submit_challenge_call)"
    unfolding eq by (rule proof_required_returns [OF assms(7,8)])
  have d: "d (sent cl) (send_call u rcp body q atts ms ts) = Inr resp
            \<and> py_get resp ''results'' (JList []) = Inr (JList rs)
            \<and> JDict res \<in> set rs
          \<longrightarrow> isl (fst (send repr d cl u rcp body q atts ms ts))"
    using send_fails_on_proof_required [OF _ _ _ assms(2-4) t] by blast
  from a b c d show ?thesis by blast
qed

theorem proof_required_challenge_unless_recaptcha_witness:
  "sent (snd (classify_result (\<lambda>_. ''?'') (\<lambda>_ _. Inr JNone) (init_client ()) send_acc0
       (JDict [(''address'', JDict [(''number'', JStr ''+1'')]),
               (''proof_required_failure'', JDict
                  [(''options'', JList [JStr ''PUSH_CHALLENGE'']),
                   (''message'', JStr ''blocked'')])])))
     = sent (init_client ()) @ [submit_challenge_call]
   \<and> isl (fst (send (\<lambda>_. ''?'')
        (\<lambda>_ _. Inr (JDict [(''results'', JList
           [JDict [(''address'', JDict [(''number'', JStr ''+1'')]),
                   (''proof_required_failure'', JDict
                      [(''options'', JList [JStr ''PUSH_CHALLENGE'']),
                       (''message'', JStr ''blocked'')])]])]))
        (init_client ()) ''+0'' (Address (JDict [(''number'', JStr ''+1'')])) ''hi''
        None None None None))
   \<and> sent (snd (classify_result (\<lambda>_. ''?'') (\<lambda>_ _. Inr JNone) (init_client ()) send_acc0
       (JDict [(''address'', JDict [(''number'', JStr ''+1'')]),
               (''proof_required_failure'', JDict
                  [(''options'', JList [JStr ''RECAPTCHA'']),
                   (''message'', JStr ''blocked'')])])))
     = sent (init_client ())"
proof -
  let ?push = "[(''options'', JList [JStr ''PUSH_CHALLENGE'']), (''message'', JStr ''blocked'')]"
  let ?captcha = "[(''options'', JList [JStr ''RECAPTCHA'']), (''message'', JStr ''blocked'')]"
  let ?res1 = "[(''address'', JDict [(''number'', JStr ''+1'')]),
                (''proof_required_failure'', JDict ?push)]"
  let ?res2 = "[(''address'', JDict [(''number'', JStr ''+1'')]),
                (''proof_required_failure'', JDict ?captcha)]"
  let ?resp = "JDict [(''results'', JList [JDict ?res1])]"
  have a1: "dict_get ?res1 ''addres'' (JDict []) = JDict []"
    and a2: "\<not> truthy (dict_get ?res1 ''networkFailure'' (JBool False))"
    and a3: "\<not> truthy (dict_get ?res1 ''unregisteredFailure'' (JBool False))"
    and a4: "\<not> truthy (dict_get ?res1 ''identityFailure'' (JStr []))"
    and a5: "dict_get ?res1 ''proof_required_failure'' JNone = JDict ?push"
    and a6: "?push \<noteq> []"
    and a7: "py_in ''RECAPTCHA'' (dict_get ?push ''options'' JNone) = Inr False"
    and a8: "py_in ''PUSH_CHALLENGE'' (dict_get ?push ''options'' JNone) = Inr True"
    by (simp_all add: dict_get_def)
  have b1: "dict_get ?res2 ''addres'' (JDict []) = JDict []"
    and b2: "\<not> truthy (dict_get ?res2 ''networkFailure'' (JBool False))"
    and b3: "\<not> truthy (dict_get ?res2 ''unregisteredFailure'' (JBool False))"
    and b4: "\<not> truthy (dict_get ?res2 ''identityFailure'' (JStr []))"
    and b5: "dict_get ?res2 ''proof_required_failure'' JNone = JDict ?captcha"
    and b6: "?captcha \<noteq> []"
    and b7: "py_in ''RECAPTCHA'' (dict_get ?captcha ''options'' JNone) = Inr True"
    and b8: "py_in ''PUSH_CHALLENGE'' (dict_get ?captcha ''options'' JNone) = Inr False"
    by (simp_all add: dict_get_def)
  have s1: "(\<lambda>_ _. Inr ?resp) (sent (init_client ()))
              (send_call ''+0'' (Address (JDict [(''number'', JStr ''+1'')])) ''hi''
                 None None None None) = Inr ?resp"
    and s2: "py_get ?resp ''results'' (JList []) = Inr (JList [JDict ?res1])"
    and s3: "JDict ?res1 \<in> set [JDict ?res1]"
    by simp_all
  note w1 = proof_required_challenge_unless_recaptcha
     [OF a1 a2 a3 a4 a5 a6 a7 a8, where repr = "\<lambda>_. ''?''" and d = "\<lambda>_ _. Inr JNone"
        and c = "init_client ()" and acc = send_acc0]
  note w2 = proof_required_challenge_unless_recaptcha
     [OF a1 a2 a3 a4 a5 a6 a7 a8, where repr = "\<lambda>_. ''?''" and d = "\<lambda>_ _. Inr ?resp"
        and c = "init_client ()" and acc = send_acc0 and cl = "init_client ()"
        and u = "''+0''" and rcp = "Address (JDict [(''number'', JStr ''+1'')])"
        and body = "''hi''" and q = None and atts = None and ms = None and ts = None
        and resp = ?resp and rs = "[JDict ?res1]"]
  note w3 = proof_required_challenge_unless_recaptcha
     [OF b1 b2 b3 b4 b5 b6 b7 b8, where repr = "\<lambda>_. ''?''" and d = "\<lambda>_ _. Inr JNone"
        and c = "init_client ()" and acc = send_acc0]
  from w1 [THEN conjunct1] have c1: "sent (snd (classify_result (\<lambda>_. ''?'') (\<lambda>_ _. Inr JNone) (init_client ())
       send_acc0 (JDict ?res1))) = sent (init_client ()) @ [submit_challenge_call]"
    by simp
  from w2 [THEN conjunct2, THEN conjunct2, THEN conjunct2] s1 s2 s3 have c2: "isl (fst (send (\<lambda>_. ''?'') (\<lambda>_ _. Inr ?resp)
        (init_client ()) ''+0'' (Address (JDict [(''number'', JStr ''+1'')])) ''hi''
        None None None None))"
    by blast
  from w3 [THEN conjunct1] have c3: "sent (snd (classify_result (\<lambda>_. ''?'') (\<lambda>_ _. Inr JNone) (init_client ())
       send_acc0 (JDict ?res2))) = sent (init_client ())"
    by simp
  from c1 c2 c3 show ?thesis by (intro conjI)
qed

end
